theory Spec2Isabelle
  imports Main "HOL-Library.Word" "HOL-Library.Sublist"
begin

section \<open>JavaScript strings\<close>

text \<open>
  A JavaScript string is a sequence of UTF-16 code units; \<open>s[i]\<close>, \<open>s.length\<close>,
  \<open>startsWith\<close> and \<open>trim\<close> all work on code units. A literal of the source is written
  \<open>js ''...''\<close>.
\<close>

type_synonym jschar = "16 word"
type_synonym jsstring = "jschar list"

definition js :: "string \<Rightarrow> jsstring" where
  "js s = map (\<lambda>c. of_nat (of_char c)) s"

definition BACKSLASH :: jschar where "BACKSLASH = 0x5C"
definition DQUOTE :: jschar where "DQUOTE = 0x22"
definition SQUOTE :: jschar where "SQUOTE = 0x27"
definition SPACE :: jschar where "SPACE = 0x20"
definition TAB :: jschar where "TAB = 0x09"

text \<open>
  \<open>String.prototype.trim\<close> removes WhiteSpace and LineTerminator code units from both ends
  (ECMAScript: TAB, VT, FF, SP, NBSP, ZWNBSP, the Unicode space separators, LF, CR, LS, PS).
\<close>

definition is_ws :: "jschar \<Rightarrow> bool" where
  "is_ws c = (c \<in> set [0x09, 0x0A, 0x0B, 0x0C, 0x0D, 0x20, 0xA0, 0x1680,
      0x2000, 0x2001, 0x2002, 0x2003, 0x2004, 0x2005, 0x2006, 0x2007, 0x2008, 0x2009, 0x200A,
      0x2028, 0x2029, 0x202F, 0x205F, 0x3000, 0xFEFF])"

definition trim :: "jsstring \<Rightarrow> jsstring" where
  "trim s = rev (dropWhile is_ws (rev (dropWhile is_ws s)))"

definition startsWith :: "jsstring \<Rightarrow> jsstring \<Rightarrow> bool" where
  "startsWith s key = (take (length key) s = key)"

section \<open>The argument tokenizer \<open>splitArgs\<close> (demo.js, inside \<open>runTerminalCommand\<close>)\<close>

text \<open>
  The scanner's three variables and its result list. \<open>inQuote\<close> is \<open>null\<close> or the quote
  character that opened the current quotation.
\<close>

record split_state =
  args :: "jsstring list"
  cur :: jsstring
  inQuote :: "jschar option"
  esc :: bool

text \<open>One iteration of the \<open>for\<close> loop, on the code unit \<open>ch = s[i]\<close>.\<close>

definition split_step :: "split_state \<Rightarrow> jschar \<Rightarrow> split_state" where
  "split_step st ch =
    (if esc st then st\<lparr>cur := cur st @ [ch], esc := False\<rparr>
     else if ch = BACKSLASH then st\<lparr>esc := True\<rparr>
     else if ch = DQUOTE \<or> ch = SQUOTE then
       (case inQuote st of
          None \<Rightarrow> st\<lparr>inQuote := Some ch\<rparr>
        | Some q \<Rightarrow>
            if q = ch then st\<lparr>inQuote := None\<rparr> else st\<lparr>cur := cur st @ [ch]\<rparr>)
     else if ch = SPACE \<and> inQuote st = None then
       (if cur st \<noteq> [] then st\<lparr>args := args st @ [cur st], cur := []\<rparr> else st)
     else st\<lparr>cur := cur st @ [ch]\<rparr>)"

fun split_loop :: "split_state \<Rightarrow> jsstring \<Rightarrow> split_state" where
  "split_loop st [] = st"
| "split_loop st (ch # s) = split_loop (split_step st ch) s"

text \<open>The two statements after the loop.\<close>

definition split_finish :: "split_state \<Rightarrow> jsstring list" where
  "split_finish st =
    (let c = (if esc st then cur st @ [BACKSLASH] else cur st)
     in if c \<noteq> [] then args st @ [c] else args st)"

definition splitArgs :: "jsstring \<Rightarrow> jsstring list" where
  "splitArgs s =
     split_finish (split_loop \<lparr>args = [], cur = [], inQuote = None, esc = False\<rparr> s)"

subsection \<open>The tokenizer as the specification words it\<close>

text \<open>
  The specification's rules, written in two passes instead of one scan. The first pass
  decides for every code unit whether it is a literal character of a token or an unquoted
  separator: a backslash turns the next code unit into a literal and disappears (a last
  backslash with nothing after it stays as a literal backslash), a quote opens or closes
  a quotation and disappears, a quote of the other kind inside a quotation is a literal,
  and a space outside quotations separates. The second pass cuts the literals at the
  separators and drops the empty pieces.
\<close>

datatype item = Lit jschar | Sep

fun lex_items :: "jschar option \<Rightarrow> jsstring \<Rightarrow> item list" where
  "lex_items q [] = []"
| "lex_items q (c # cs) =
    (if c = BACKSLASH then
       (case cs of [] \<Rightarrow> [Lit BACKSLASH] | d # ds \<Rightarrow> Lit d # lex_items q ds)
     else if c = DQUOTE \<or> c = SQUOTE then
       (case q of
          None \<Rightarrow> lex_items (Some c) cs
        | Some p \<Rightarrow> if p = c then lex_items None cs else Lit c # lex_items q cs)
     else if c = SPACE \<and> q = None then Sep # lex_items q cs
     else Lit c # lex_items q cs)"

fun cut_fields :: "item list \<Rightarrow> jsstring list" where
  "cut_fields [] = [[]]"
| "cut_fields (Sep # xs) = [] # cut_fields xs"
| "cut_fields (Lit c # xs) = (case cut_fields xs of [] \<Rightarrow> [[c]] | f # fs \<Rightarrow> (c # f) # fs)"

definition spec_split :: "jsstring \<Rightarrow> jsstring list" where
  "spec_split s = filter (\<lambda>t. t \<noteq> []) (cut_fields (lex_items None s))"

text \<open>Joins a current token to the first piece of a cut; used to state the scanner's invariant.\<close>

fun glue :: "jsstring \<Rightarrow> jsstring list \<Rightarrow> jsstring list" where
  "glue c [] = [c]"
| "glue c (f # fs) = (c @ f) # fs"

section \<open>The Terminal Controller (demo.js)\<close>

subsection \<open>State\<close>

text \<open>
  The second argument of \<open>appendOutput\<close>: the empty default, \<open>'info'\<close>, \<open>'error'\<close> or
  \<open>'success'\<close>.
\<close>

datatype style = Style_plain | Style_info | Style_error | Style_success

type_synonym out_line = "jsstring \<times> style"

datatype action = RunHelp | ClearTerminal | RunJustWatchSearch

record command_spec =
  description :: jsstring
  action :: action

text \<open>
  The registry object, as the list of its entries in \<open>for ... in\<close> / \<open>Object.keys\<close>
  enumeration order. For keys that are not array indices (as the three keys of the source)
  that order is the order of declaration.
\<close>

type_synonym registry = "(jsstring \<times> command_spec) list"

definition TERMINAL_COMMANDS :: registry where
  "TERMINAL_COMMANDS =
    [(js ''help'', \<lparr>description = js ''Show this help message'', action = RunHelp\<rparr>),
     (js ''clear'', \<lparr>description = js ''Clear the terminal output'', action = ClearTerminal\<rparr>),
     (js ''python just_watch_search.py'',
        \<lparr>description = js ''Run the JustWatch search script'', action = RunJustWatchSearch\<rparr>)]"

text \<open>Messages the Controller posts to the worker.\<close>

datatype to_worker =
    Msg_init
  | Msg_loadScript jsstring
  | Msg_run "jsstring list"
  | Msg_stdin_response jsstring

text \<open>
  A Python value as far as the exit code needs it: \<open>None\<close>, an integer or a string
  (\<open>sys.exit\<close> accepts any of them as \<open>SystemExit.code\<close>).
\<close>

datatype pyval = PyNone | PyInt int | PyStr jsstring

text \<open>
  The two shapes of the worker's \<open>complete\<close> message:
  \<open>{type: 'complete', success: true, exit_code}\<close> and
  \<open>{type: 'complete', success: false, error}\<close>.
\<close>

datatype completion = Complete_ok pyval | Complete_failed jsstring

text \<open>
  Messages the worker posts to the Controller (\<open>e.data\<close> of \<open>worker.onmessage\<close>). The
  \<open>runId\<close> of a \<open>stdin_request\<close> is a time stamp plus a random number and is left out.
\<close>

datatype from_worker =
    W_status jsstring jsstring
  | W_initialized
  | W_scriptLoaded
  | W_output jsstring
  | W_error jsstring
  | W_stdin_request jsstring
  | W_complete completion

text \<open>
  The module-level variables of demo.js and the parts of the page it reads and writes:
  the lines of \<open>#terminalOutput\<close>, the status indicator and text, and the value, the
  \<open>disabled\<close> flag and the selection of \<open>#commandInput\<close>. \<open>worker\<close> says whether the
  variable \<open>worker\<close> holds a Worker; \<open>sent\<close> lists what was posted to it.
\<close>

record controller =
  terminalOutput :: "out_line list"
  statusState :: jsstring
  statusText :: jsstring
  commandHistory :: "jsstring list"
  historyIndex :: int
  inputValue :: jsstring
  inputDisabled :: bool
  selection :: "nat \<times> nat"
  worker :: bool
  workerReady :: bool
  sent :: "to_worker list"

text \<open>The state when the script has been evaluated and \<open>initPyodide\<close> has created the worker.\<close>

definition controller_init :: controller where
  "controller_init =
    \<lparr>terminalOutput = [], statusState = js ''loading'', statusText = js ''Initializing worker...'',
     commandHistory = [], historyIndex = - 1, inputValue = [], inputDisabled = False,
     selection = (0, 0), worker = True, workerReady = False, sent = [Msg_init]\<rparr>"

subsection \<open>Output, status and the built-in actions\<close>

definition updateStatus :: "jsstring \<Rightarrow> jsstring \<Rightarrow> controller \<Rightarrow> controller" where
  "updateStatus state message s = s\<lparr>statusState := state, statusText := message\<rparr>"

definition appendOutput :: "jsstring \<Rightarrow> style \<Rightarrow> controller \<Rightarrow> controller" where
  "appendOutput text ty s = s\<lparr>terminalOutput := terminalOutput s @ [(text, ty)]\<rparr>"

definition clearTerminal :: "controller \<Rightarrow> controller" where
  "clearTerminal s = s\<lparr>terminalOutput := []\<rparr>"

definition runHelp :: "registry \<Rightarrow> controller \<Rightarrow> controller" where
  "runHelp reg s =
    appendOutput [] Style_plain
      (fold (\<lambda>(cmd, spec). appendOutput (js ''- '' @ cmd @ js '': '' @ description spec) Style_plain)
         reg (appendOutput (js ''Available commands:'') Style_plain s))"

definition runJustWatchSearch :: "jsstring list \<Rightarrow> controller \<Rightarrow> controller" where
  "runJustWatchSearch as s =
    (if \<not> worker s \<or> \<not> workerReady s then
       appendOutput (js ''Python environment not ready yet. Please wait...'') Style_error s
     else
       (let s1 = updateStatus (js ''loading'') (js ''Running command...'') s
        in s1\<lparr>sent := sent s1 @ [Msg_run as]\<rparr>))"

text \<open>\<open>cmd.action(args)\<close>: the call of the function the registry entry holds.\<close>

fun perform :: "registry \<Rightarrow> action \<Rightarrow> jsstring list \<Rightarrow> controller \<Rightarrow> controller" where
  "perform reg RunHelp as s = runHelp reg s"
| "perform reg ClearTerminal as s = clearTerminal s"
| "perform reg RunJustWatchSearch as s = runJustWatchSearch as s"

subsection \<open>\<open>runTerminalCommand\<close>\<close>

text \<open>The \<open>for ... in\<close> loop with its \<open>break\<close>: the first entry whose key starts the command.\<close>

fun find_command :: "registry \<Rightarrow> jsstring \<Rightarrow> (jsstring \<times> command_spec) option" where
  "find_command [] command = None"
| "find_command ((key, spec) # reg) command =
    (if startsWith command key then Some (key, spec) else find_command reg command)"

text \<open>
  \<open>command.replace(key, '')\<close> with a string pattern: the leftmost occurrence of \<open>key\<close> is
  removed, and a string without one is returned as it is.
\<close>

fun replace_first :: "jsstring \<Rightarrow> jsstring \<Rightarrow> jsstring" where
  "replace_first key [] = []"
| "replace_first key (c # cs) =
    (if startsWith (c # cs) key then drop (length key) (c # cs) else c # replace_first key cs)"

text \<open>
  \<open>runTerminalCommand\<close> is an \<open>async\<close> function with one suspension point,
  \<open>await cmd.action(args)\<close>. \<open>dispatch_begin\<close> is the matched branch up to and including
  the call of the action; all three actions run to their end inside that call (the promise
  \<open>runJustWatchSearch\<close> returns is already resolved: it awaits nothing). \<open>dispatch_end\<close>
  is the statement after the \<open>await\<close>, which runs as a microtask of the same event.
\<close>

definition dispatch_begin ::
  "registry \<Rightarrow> jsstring \<Rightarrow> jsstring \<times> command_spec \<Rightarrow> controller \<Rightarrow> controller" where
  "dispatch_begin reg command entry s =
    (let args_raw = trim (replace_first (fst entry) command);
         s1 = s\<lparr>commandHistory := commandHistory s @ [command]\<rparr>;
         s2 = s1\<lparr>historyIndex := int (length (commandHistory s1))\<rparr>;
         as = splitArgs args_raw;
         s3 = appendOutput (js ''$ '' @ command) Style_info s2;
         s4 = s3\<lparr>inputValue := [], inputDisabled := True\<rparr>
     in perform reg (action (snd entry)) as s4)"

definition dispatch_end :: "controller \<Rightarrow> controller" where
  "dispatch_end s = s\<lparr>inputDisabled := False\<rparr>"

definition unknown_command :: "jsstring \<Rightarrow> controller \<Rightarrow> controller" where
  "unknown_command command s =
    appendOutput (js ''Type \"help\" to see the list of available commands.'') Style_info
      (appendOutput (js ''Unknown command: '' @ command) Style_error s)"

definition runTerminalCommand :: "registry \<Rightarrow> jsstring \<Rightarrow> controller \<Rightarrow> controller" where
  "runTerminalCommand reg command s =
    (case find_command reg command of
       Some entry \<Rightarrow> dispatch_end (dispatch_begin reg command entry s)
     | None \<Rightarrow> unknown_command command s)"

subsection \<open>The \<open>keydown\<close> handler of the input field\<close>

datatype key = Enter | ArrowUp | ArrowDown | Tab | OtherKey

definition keydown_Enter :: "registry \<Rightarrow> controller \<Rightarrow> controller" where
  "keydown_Enter reg s =
    (let cmd = trim (inputValue s)
     in if cmd \<noteq> [] then (runTerminalCommand reg cmd s)\<lparr>inputValue := []\<rparr> else s)"

text \<open>
  \<open>this.value = commandHistory[historyIndex] || ''\<close> followed by \<open>setSelectionRange\<close>: an
  index outside the array reads \<open>undefined\<close>, which \<open>||\<close> turns into the empty string.
\<close>

definition show_history :: "int \<Rightarrow> controller \<Rightarrow> controller" where
  "show_history i s =
    (let v = (if 0 \<le> i \<and> i < int (length (commandHistory s))
              then commandHistory s ! nat i else [])
     in s\<lparr>historyIndex := i, inputValue := v, selection := (length v, length v)\<rparr>)"

definition keydown_Arrow :: "bool \<Rightarrow> controller \<Rightarrow> controller" where
  "keydown_Arrow up s =
    (if length (commandHistory s) = 0 then s
     else
       (let n = int (length (commandHistory s));
            i = (if historyIndex s < 0 \<or> historyIndex s > n then n else historyIndex s)
        in if up then show_history (if i > 0 then i - 1 else i) s
           else if i < n - 1 then show_history (i + 1) s
           else s\<lparr>historyIndex := n, inputValue := []\<rparr>))"

definition keydown_Tab :: "registry \<Rightarrow> controller \<Rightarrow> controller" where
  "keydown_Tab reg s =
    (let currentInput = trim (inputValue s);
         matchingCommands = filter (\<lambda>cmd. startsWith cmd currentInput) (map fst reg)
     in if length matchingCommands = 1 then
          (let v = matchingCommands ! 0
           in s\<lparr>inputValue := v, selection := (length v, length v)\<rparr>)
        else if length matchingCommands > 1 then
          fold (\<lambda>cmd. appendOutput (js ''- '' @ cmd) Style_plain) matchingCommands
            (appendOutput (js ''Possible completions:'') Style_plain s)
        else s)"

fun keydown :: "registry \<Rightarrow> key \<Rightarrow> controller \<Rightarrow> controller" where
  "keydown reg Enter s = keydown_Enter reg s"
| "keydown reg ArrowUp s = keydown_Arrow True s"
| "keydown reg ArrowDown s = keydown_Arrow False s"
| "keydown reg Tab s = keydown_Tab reg s"
| "keydown reg OtherKey s = s"

text \<open>The user replaces the text of the input field. This is the browser's doing, not the script's.\<close>

definition type_line :: "jsstring \<Rightarrow> controller \<Rightarrow> controller" where
  "type_line l s = s\<lparr>inputValue := l, selection := (length l, length l)\<rparr>"

text \<open>A sequence of submissions: each line is typed and sent with Enter.\<close>

fun submit_all :: "registry \<Rightarrow> jsstring list \<Rightarrow> controller \<Rightarrow> controller" where
  "submit_all reg [] s = s"
| "submit_all reg (l # ls) s = submit_all reg ls (keydown_Enter reg (type_line l s))"

subsection \<open>\<open>worker.onmessage\<close>\<close>

text \<open>\<open>error.includes('SystemExit')\<close>: whether the pattern occurs somewhere in the string.\<close>

fun js_includes :: "jsstring \<Rightarrow> jsstring \<Rightarrow> bool" where
  "js_includes [] pat = (pat = [])"
| "js_includes (c # cs) pat = (startsWith (c # cs) pat \<or> js_includes cs pat)"

text \<open>
  The handler has no branch for \<open>stdin_request\<close>. Its \<open>initialized\<close> branch only starts the
  fetch of the script; \<open>script_fetched\<close> is the callback of that fetch.
\<close>

fun worker_onmessage :: "from_worker \<Rightarrow> controller \<Rightarrow> controller" where
  "worker_onmessage (W_status state message) s = updateStatus state message s"
| "worker_onmessage W_initialized s = s"
| "worker_onmessage W_scriptLoaded s =
    appendOutput [] Style_plain
      (appendOutput (js ''Type \"help\" to see available commands.'') Style_info
        (appendOutput (js ''Python environment loaded successfully!'') Style_success
          (s\<lparr>workerReady := True\<rparr>)))"
| "worker_onmessage (W_output text) s = appendOutput text Style_plain s"
| "worker_onmessage (W_error message) s = appendOutput (js ''Error: '' @ message) Style_error s"
| "worker_onmessage (W_stdin_request prompt) s = s"
| "worker_onmessage (W_complete (Complete_ok code)) s =
    appendOutput [] Style_plain
      (updateStatus (js ''ready'') (js ''Command completed successfully'')
        (s\<lparr>inputDisabled := False\<rparr>))"
| "worker_onmessage (W_complete (Complete_failed err)) s =
    (let s1 = s\<lparr>inputDisabled := False\<rparr>;
         s2 = (if err \<noteq> [] \<and> \<not> js_includes err (js ''SystemExit'')
               then appendOutput (js ''Error: '' @ err) Style_error s1 else s1)
     in appendOutput [] Style_plain (updateStatus (js ''ready'') (js ''Command completed'') s2))"

definition script_fetched :: "jsstring \<Rightarrow> controller \<Rightarrow> controller" where
  "script_fetched code s = s\<lparr>sent := sent s @ [Msg_loadScript code]\<rparr>"

section \<open>The Runtime Bridge (the worker with the run queue)\<close>

subsection \<open>The interpreter state that \<open>run\<close> patches\<close>

text \<open>
  What a patched name holds: the interpreter's own object, or the replacement a run
  installs (\<open>custom_print\<close>, \<open>async_input\<close>, a \<open>StdoutRedirector\<close>, a \<open>StderrRedirector\<close>).
\<close>

datatype prim = Original | Patched

text \<open>
  \<open>builtins.print\<close>, \<open>builtins.input\<close>, \<open>sys.stdout\<close>, \<open>sys.stderr\<close>; the globals
  \<open>_original_print\<close> ... \<open>_original_stderr\<close> (\<open>None\<close> while the name is not defined); and
  whether the JavaScript module \<open>output_handler\<close> is registered.
\<close>

record py_state =
  builtins_print :: prim
  builtins_input :: prim
  sys_stdout :: prim
  sys_stderr :: prim
  saved_print :: "prim option"
  saved_input :: "prim option"
  saved_stdout :: "prim option"
  saved_stderr :: "prim option"
  js_module :: bool

text \<open>
  What the awaited \<open>just_watch_search.main()\<close> can end with, by the \<open>except\<close> clause that
  takes it: \<open>OtherException\<close> is an instance of \<open>Exception\<close> other than \<open>EOFError\<close>, with
  \<open>str(e)\<close> and the chunks \<open>traceback.print_exc()\<close> writes; \<open>OtherBaseException\<close> is an
  instance of \<open>BaseException\<close> outside \<open>Exception\<close>, \<open>KeyboardInterrupt\<close> and
  \<open>SystemExit\<close> (\<open>GeneratorExit\<close>, \<open>asyncio.CancelledError\<close>, a class of the script's own),
  with the message of the JavaScript error it becomes.
\<close>

datatype py_exc =
    EOFError
  | KeyboardInterrupt
  | SystemExit pyval
  | OtherException jsstring "jsstring list"
  | OtherBaseException jsstring

text \<open>What the script does while it runs: it prints a text, or asks for a line of input.\<close>

datatype emission = Print jsstring | Ask jsstring

text \<open>
  Everything one call of \<open>run\<close> takes from outside: whether the first Python call (the one
  that installs the interception) raises, after how many of its patching statements and
  with which message; whether \<open>import just_watch_search\<close> or the lookup of \<open>main\<close> raises;
  what \<open>main\<close> emits; and how \<open>main\<close> ends (\<open>None\<close>: it returns).
\<close>

record run_env =
  setup_fault :: "(nat \<times> jsstring) option"
  import_fault :: "jsstring option"
  emitted :: "emission list"
  ending :: "py_exc option"

text \<open>The worker's variables that \<open>run\<close> touches, and the messages it has posted.\<close>

record runtime =
  pyodide :: py_state
  activeStdinHandler :: bool
  outbox :: "from_worker list"

subsection \<open>The Python of \<open>run\<close>\<close>

text \<open>
  The statements of the first Python call that change the state above, in order: four
  saves, then four patches. The imports, the class and function definitions and the
  assignment of \<open>sys.argv\<close> around them change none of it.
\<close>

definition setup_stmts :: "(py_state \<Rightarrow> py_state) list" where
  "setup_stmts =
    [\<lambda>p. p\<lparr>saved_print := Some (builtins_print p)\<rparr>,
     \<lambda>p. p\<lparr>saved_input := Some (builtins_input p)\<rparr>,
     \<lambda>p. p\<lparr>saved_stdout := Some (sys_stdout p)\<rparr>,
     \<lambda>p. p\<lparr>saved_stderr := Some (sys_stderr p)\<rparr>,
     \<lambda>p. p\<lparr>builtins_print := Patched\<rparr>,
     \<lambda>p. p\<lparr>builtins_input := Patched\<rparr>,
     \<lambda>p. p\<lparr>sys_stdout := Patched\<rparr>,
     \<lambda>p. p\<lparr>sys_stderr := Patched\<rparr>]"

fun exec_stmts :: "(py_state \<Rightarrow> py_state) list \<Rightarrow> py_state \<Rightarrow> py_state" where
  "exec_stmts [] p = p"
| "exec_stmts (f # fs) p = exec_stmts fs (f p)"

definition setup_script :: "(nat \<times> jsstring) option \<Rightarrow> py_state \<Rightarrow> py_state \<times> jsstring option" where
  "setup_script fault p =
    (case fault of
       None \<Rightarrow> (exec_stmts setup_stmts p, None)
     | Some (k, msg) \<Rightarrow> (exec_stmts (take k setup_stmts) p, Some msg))"

text \<open>
  The four restoring assignments, in order. Reading a name that is not defined raises
  \<open>NameError\<close> and ends the sequence; the flag says whether all four ran.
\<close>

definition restore_stmts :: "py_state \<Rightarrow> py_state \<times> bool" where
  "restore_stmts p =
    (case saved_print p of None \<Rightarrow> (p, False) | Some v1 \<Rightarrow>
      (let p1 = p\<lparr>builtins_print := v1\<rparr> in
       case saved_input p1 of None \<Rightarrow> (p1, False) | Some v2 \<Rightarrow>
        (let p2 = p1\<lparr>builtins_input := v2\<rparr> in
         case saved_stdout p2 of None \<Rightarrow> (p2, False) | Some v3 \<Rightarrow>
          (let p3 = p2\<lparr>sys_stdout := v3\<rparr> in
           case saved_stderr p3 of None \<Rightarrow> (p3, False) | Some v4 \<Rightarrow>
             (p3\<lparr>sys_stderr := v4\<rparr>, True)))))"

text \<open>
  A \<open>print\<close> reaches the Controller only through \<open>custom_print\<close>, a write to \<open>sys.stderr\<close>
  only through the redirector, a request for input only through \<open>async_input\<close> (which
  prints a non-empty prompt first).
\<close>

definition py_print :: "py_state \<Rightarrow> jsstring \<Rightarrow> from_worker list" where
  "py_print p text = (if builtins_print p = Patched then [W_output text] else [])"

definition py_stderr_write :: "py_state \<Rightarrow> jsstring \<Rightarrow> from_worker list" where
  "py_stderr_write p text = (if sys_stderr p = Patched then [W_output text] else [])"

fun py_emit :: "py_state \<Rightarrow> emission \<Rightarrow> from_worker list" where
  "py_emit p (Print text) = py_print p text"
| "py_emit p (Ask prompt) =
    (if builtins_input p = Patched
     then (if prompt \<noteq> [] then py_print p prompt else []) @ [W_stdin_request prompt]
     else [])"

definition LF :: jschar where "LF = 0x0A"

text \<open>
  The \<open>try ... except\<close> around \<open>await just_watch_search.main()\<close>: the messages the handlers
  print, and the value of \<open>exit_code\<close>; \<open>Inl\<close> when no clause takes the exception.
\<close>

fun exit_code_of :: "py_state \<Rightarrow> py_exc option \<Rightarrow> from_worker list \<times> (jsstring + pyval)" where
  "exit_code_of p None = ([], Inr (PyInt 0))"
| "exit_code_of p (Some EOFError) = ([], Inr (PyInt 1))"
| "exit_code_of p (Some KeyboardInterrupt) = (py_print p (js ''Cancelled'' @ [LF]), Inr (PyInt 130))"
| "exit_code_of p (Some (SystemExit code)) = ([], Inr (if code \<noteq> PyNone then code else PyInt 0))"
| "exit_code_of p (Some (OtherException msg tb)) =
    (py_print p (js ''Error: '' @ msg @ [LF]) @ concat (map (py_stderr_write p) tb), Inr (PyInt 1))"
| "exit_code_of p (Some (OtherBaseException msg)) = ([], Inl msg)"

text \<open>
  The second Python call: the import, the guarded call of \<open>main\<close>, the four restoring
  assignments, and \<open>exit_code\<close> as the value of the call. \<open>Inl\<close> is the error the call
  rejects with.
\<close>

definition NameError_message :: jsstring where
  "NameError_message = js ''NameError''"

definition main_script ::
  "run_env \<Rightarrow> py_state \<Rightarrow> py_state \<times> from_worker list \<times> (jsstring + pyval)" where
  "main_script env p =
    (case import_fault env of
       Some msg \<Rightarrow> (p, [], Inl msg)
     | None \<Rightarrow>
        (let outs = concat (map (py_emit p) (emitted env));
             (handler_outs, res) = exit_code_of p (ending env)
         in case res of
              Inl msg \<Rightarrow> (p, outs @ handler_outs, Inl msg)
            | Inr code \<Rightarrow>
               (case restore_stmts p of
                  (p', True) \<Rightarrow> (p', outs @ handler_outs, Inr code)
                | (p', False) \<Rightarrow> (p', outs @ handler_outs, Inl NameError_message))))"

subsection \<open>\<open>run\<close>\<close>

text \<open>
  The \<open>catch\<close> block: the handler is cleared, the restoring assignments run under
  \<open>except NameError: pass\<close>, the module is unregistered; what is left is to post the
  failure.
\<close>

definition run_catch :: "jsstring \<Rightarrow> py_state \<Rightarrow> runtime \<Rightarrow> runtime \<times> completion" where
  "run_catch msg p b =
    (b\<lparr>activeStdinHandler := False, pyodide := (fst (restore_stmts p))\<lparr>js_module := False\<rparr>\<rparr>,
     Complete_failed msg)"

text \<open>
  \<open>run(args)\<close> up to its last statement, which in either branch is the \<open>postMessage\<close> of the
  \<open>complete\<close> event: the result is the worker's state at that moment and the event to be
  posted. The interpreter is taken to be loaded (the Controller sends \<open>run\<close> only after
  \<open>scriptLoaded\<close>), and registering and unregistering the module and the restoring call of
  the \<open>catch\<close> block are taken not to fail on their own.
\<close>

definition run_body :: "run_env \<Rightarrow> jsstring list \<Rightarrow> runtime \<Rightarrow> runtime \<times> completion" where
  "run_body env as b =
    (let p1 = (pyodide b)\<lparr>js_module := True\<rparr>;
         b1 = b\<lparr>activeStdinHandler := True\<rparr>
     in case setup_script (setup_fault env) p1 of
          (p2, Some msg) \<Rightarrow> run_catch msg p2 b1
        | (p2, None) \<Rightarrow>
           (case main_script env p2 of
              (p3, outs, Inl msg) \<Rightarrow> run_catch msg p3 (b1\<lparr>outbox := outbox b1 @ outs\<rparr>)
            | (p3, outs, Inr code) \<Rightarrow>
               (b1\<lparr>outbox := outbox b1 @ outs, activeStdinHandler := False,
                    pyodide := p3\<lparr>js_module := False\<rparr>\<rparr>,
                Complete_ok code)))"

definition run :: "run_env \<Rightarrow> jsstring list \<Rightarrow> runtime \<Rightarrow> runtime" where
  "run env as b =
    (case run_body env as b of (b', c) \<Rightarrow> b'\<lparr>outbox := outbox b' @ [W_complete c]\<rparr>)"

text \<open>
  No interception in place: the four names hold the interpreter's own objects, a saved
  name that is defined holds such an object too, the module is not registered and no
  input handler is active. A freshly loaded interpreter is in this state.
\<close>

definition clean :: "runtime \<Rightarrow> bool" where
  "clean b =
    (builtins_print (pyodide b) = Original \<and> builtins_input (pyodide b) = Original \<and>
     sys_stdout (pyodide b) = Original \<and> sys_stderr (pyodide b) = Original \<and>
     saved_print (pyodide b) \<noteq> Some Patched \<and> saved_input (pyodide b) \<noteq> Some Patched \<and>
     saved_stdout (pyodide b) \<noteq> Some Patched \<and> saved_stderr (pyodide b) \<noteq> Some Patched \<and>
     \<not> js_module (pyodide b) \<and> \<not> activeStdinHandler b)"

definition runtime_init :: runtime where
  "runtime_init =
    \<lparr>pyodide = \<lparr>builtins_print = Original, builtins_input = Original, sys_stdout = Original,
        sys_stderr = Original, saved_print = None, saved_input = None, saved_stdout = None,
        saved_stderr = None, js_module = False\<rparr>,
     activeStdinHandler = False, outbox = []\<rparr>"

subsection \<open>The run queue\<close>

text \<open>
  The queue variables of the worker. Every \<open>run\<close> request is numbered by its arrival, so
  that the order of events can be stated: \<open>arrivals\<close> counts the requests received,
  \<open>executing\<close> lists the calls of \<open>run\<close> that have started and not yet returned, and
  \<open>posted\<close> lists the messages posted by runs, each with the number of its run.
\<close>

record bridge =
  runningCommand :: bool
  commandQueue :: "(nat \<times> jsstring list) list"
  executing :: "(nat \<times> jsstring list) list"
  arrivals :: nat
  posted :: "(nat \<times> from_worker) list"

definition bridge_init :: bridge where
  "bridge_init =
    \<lparr>runningCommand = False, commandQueue = [], executing = [], arrivals = 0, posted = []\<rparr>"

text \<open>\<open>processCommandQueue\<close> up to its \<open>await run(args)\<close>: the call of \<open>run\<close> has started.\<close>

definition processCommandQueue :: "bridge \<Rightarrow> bridge" where
  "processCommandQueue b =
    (if runningCommand b \<or> length (commandQueue b) = 0 then b
     else
       (case commandQueue b of
          [] \<Rightarrow> b
        | r # rest \<Rightarrow>
            b\<lparr>runningCommand := True, commandQueue := rest, executing := executing b @ [r]\<rparr>))"

text \<open>
  The rest of \<open>processCommandQueue\<close> for the call \<open>rid\<close>: \<open>run\<close> posts its \<open>complete\<close> event
  and returns, and the \<open>finally\<close> block follows as a microtask of the same turn.
\<close>

definition run_returns :: "nat \<Rightarrow> completion \<Rightarrow> bridge \<Rightarrow> bridge" where
  "run_returns rid c b =
    (let b1 = b\<lparr>posted := posted b @ [(rid, W_complete c)],
                 executing := filter (\<lambda>r. fst r \<noteq> rid) (executing b)\<rparr>;
         b2 = b1\<lparr>runningCommand := False\<rparr>
     in if length (commandQueue b2) > 0 then processCommandQueue b2 else b2)"

text \<open>
  The events of the worker: a message arrives; the script of a run that is executing
  prints or asks for input; a run that is executing completes. Of the arriving messages
  only \<open>run\<close> touches the queue: \<open>init\<close> and \<open>loadScript\<close> work on the interpreter,
  \<open>stdin_response\<close> resumes the script that waits for it, and what these post themselves
  (status, \<open>initialized\<close>, \<open>scriptLoaded\<close>, \<open>error\<close>) belongs to no run and is left out of
  \<open>posted\<close>. An event named for a run that is not executing changes nothing.
\<close>

datatype bridge_event =
    Receive to_worker
  | Emits nat emission
  | Returns nat completion

definition emission_msgs :: "emission \<Rightarrow> from_worker list" where
  "emission_msgs e =
    (case e of
       Print text \<Rightarrow> [W_output text]
     | Ask prompt \<Rightarrow> (if prompt \<noteq> [] then [W_output prompt] else []) @ [W_stdin_request prompt])"

fun bridge_step :: "bridge \<Rightarrow> bridge_event \<Rightarrow> bridge" where
  "bridge_step b (Receive (Msg_run as)) =
     processCommandQueue
       (b\<lparr>commandQueue := commandQueue b @ [(arrivals b, as)], arrivals := arrivals b + 1\<rparr>)"
| "bridge_step b (Receive m) = b"
| "bridge_step b (Emits rid e) =
     (if rid \<in> fst ` set (executing b)
      then b\<lparr>posted := posted b @ map (Pair rid) (emission_msgs e)\<rparr> else b)"
| "bridge_step b (Returns rid c) =
     (if rid \<in> fst ` set (executing b) then run_returns rid c b else b)"

definition bridge_run :: "bridge_event list \<Rightarrow> bridge" where
  "bridge_run evs = foldl bridge_step bridge_init evs"

fun is_complete :: "from_worker \<Rightarrow> bool" where
  "is_complete (W_complete c) = True"
| "is_complete m = False"

text \<open>
  The order the queue promises for the posted messages: run numbers never decrease along
  the list, and after the \<open>complete\<close> of a run only later runs post.
\<close>

fun in_order :: "(nat \<times> from_worker) list \<Rightarrow> bool" where
  "in_order [] = True"
| "in_order ((r, m) # tr) =
    (list_all (\<lambda>(r', m'). r \<le> r' \<and> (is_complete m \<longrightarrow> r < r')) tr \<and> in_order tr)"

text \<open>
  Requests run one after the other (the queue starts a run only when the one before has
  completed); each run has its own environment.
\<close>

fun run_all :: "(run_env \<times> jsstring list) list \<Rightarrow> runtime \<Rightarrow> runtime" where
  "run_all [] b = b"
| "run_all ((env, as) # rs) b = run_all rs (run env as b)"

section \<open>Notions used to state the properties\<close>

text \<open>
  A submitted line is dispatched when, trimmed, it is not empty and some registry key
  starts it.
\<close>

definition dispatches :: "registry \<Rightarrow> jsstring \<Rightarrow> bool" where
  "dispatches reg l = (trim l \<noteq> [] \<and> find_command reg (trim l) \<noteq> None)"

text \<open>The Controller once the worker has reported \<open>scriptLoaded\<close>.\<close>

definition ready_state :: controller where
  "ready_state = worker_onmessage W_scriptLoaded controller_init"

text \<open>A Controller with two commands in its history and a fresh cursor.\<close>

definition nav_state :: controller where
  "nav_state = controller_init\<lparr>commandHistory := [js ''help'', js ''clear''], historyIndex := 2\<rparr>"

text \<open>The registry of the specification's completion example.\<close>

definition help_registry :: registry where
  "help_registry =
    [(js ''help'', \<lparr>description = js ''Show this help message'', action = RunHelp\<rparr>),
     (js ''helpme'', \<lparr>description = js ''Another command'', action = ClearTerminal\<rparr>)]"

text \<open>
  What holds of the queue in every state the worker can reach: at most one call of
  \<open>run\<close> is executing, and \<open>runningCommand\<close> says whether one is; requests wait only
  while one is executing; the executing call and the waiting requests are in order of
  arrival; every message posted so far comes from a run no later than the executing one
  and earlier than every waiting one, and a run that has completed is earlier than the
  executing one; and the posted messages are in order.
\<close>

definition queue_inv :: "bridge \<Rightarrow> bool" where
  "queue_inv b =
    (length (executing b) \<le> 1 \<and>
     (runningCommand b \<longleftrightarrow> executing b \<noteq> []) \<and>
     (\<not> runningCommand b \<longrightarrow> commandQueue b = []) \<and>
     sorted_wrt (<) (map fst (executing b @ commandQueue b)) \<and>
     (\<forall>e\<in>set (executing b @ commandQueue b). fst e < arrivals b) \<and>
     (\<forall>p\<in>set (posted b). fst p < arrivals b \<and>
        (\<forall>e\<in>set (executing b). fst p \<le> fst e \<and> (is_complete (snd p) \<longrightarrow> fst p < fst e)) \<and>
        (\<forall>e\<in>set (commandQueue b). fst p < fst e)) \<and>
     in_order (posted b))"

text \<open>
  Two requests arrive back to back; then the first run prints and completes, and the
  second prints (a print attributed to the second run before it has started is not an
  event of the worker and changes nothing).
\<close>

definition two_requests :: "bridge_event list" where
  "two_requests = [Receive (Msg_run [js ''a'']), Receive (Msg_run [js ''b''])]"

definition two_runs :: "bridge_event list" where
  "two_runs = two_requests @
     [Emits 0 (Print (js ''x'')), Emits 1 (Print (js ''early'')),
      Returns 0 (Complete_ok (PyInt 0)), Emits 1 (Print (js ''y''))]"

text \<open>
  Environments of single runs: a run without faults in which \<open>main\<close> prints nothing and
  ends as given; a run whose first Python call raises after the print has been patched;
  and a run without faults that prints one line and returns.
\<close>

definition env_ending :: "py_exc option \<Rightarrow> run_env" where
  "env_ending e = \<lparr>setup_fault = None, import_fault = None, emitted = [], ending = e\<rparr>"

definition env_setup_fails :: run_env where
  "env_setup_fails =
    \<lparr>setup_fault = Some (5, js ''boom''), import_fault = None, emitted = [], ending = None\<rparr>"

definition env_prints :: run_env where
  "env_prints =
    \<lparr>setup_fault = None, import_fault = None, emitted = [Print (js ''Dune'')], ending = None\<rparr>"

section \<open>The tokenizer follows its rules\<close>

lemma cut_fields_nonempty: "cut_fields xs \<noteq> []"
  by (induction xs rule: cut_fields.induct) (auto split: list.splits)

lemma glue_lit: "glue c (cut_fields (Lit d # xs)) = glue (c @ [d]) (cut_fields xs)"
  by (cases "cut_fields xs") (auto)

lemma split_loop_spec:
  "\<not> esc st \<Longrightarrow> inQuote st = q \<Longrightarrow>
   split_finish (split_loop st s) =
     args st @ filter (\<lambda>t. t \<noteq> []) (glue (cur st) (cut_fields (lex_items q s)))"
proof (induction q s arbitrary: st rule: lex_items.induct)
  case (1 q)
  then show ?case by (simp add: split_finish_def)
next
  case (2 q c cs)
  note ne = \<open>\<not> esc st\<close> and iq = \<open>inQuote st = q\<close>
  show ?case
  proof (cases "c = BACKSLASH")
    case True
    show ?thesis
    proof (cases cs)
      case Nil
      with True ne iq show ?thesis by (simp add: split_step_def split_finish_def)
    next
      case (Cons d ds)
      let ?st = "split_step (split_step st c) d"
      have st': "?st = st\<lparr>cur := cur st @ [d]\<rparr>"
        using True ne by (simp add: split_step_def)
      have "split_finish (split_loop ?st ds) =
        args ?st @ filter (\<lambda>t. t \<noteq> []) (glue (cur ?st) (cut_fields (lex_items q ds)))"
        using "2.IH"(1)[OF True Cons, of ?st] ne iq st' by simp
      then show ?thesis using True Cons st' by (simp add: glue_lit del: cut_fields.simps)
    qed
  next
    case nb: False
    show ?thesis
    proof (cases "c = DQUOTE \<or> c = SQUOTE")
      case True
      show ?thesis
      proof (cases q)
        case None
        let ?st = "split_step st c"
        have st': "?st = st\<lparr>inQuote := Some c\<rparr>"
          using nb True ne iq None by (simp add: split_step_def)
        show ?thesis
          using "2.IH"(2)[OF nb True None, of ?st] ne st' nb True None by simp
      next
        case (Some p)
        show ?thesis
        proof (cases "p = c")
          case same: True
          let ?st = "split_step st c"
          have st': "?st = st\<lparr>inQuote := None\<rparr>"
            using nb True ne iq Some same by (simp add: split_step_def)
          show ?thesis
            using "2.IH"(3)[OF nb True Some same, of ?st] ne st' nb True Some same by simp
        next
          case other: False
          let ?st = "split_step st c"
          have st': "?st = st\<lparr>cur := cur st @ [c]\<rparr>"
            using nb True ne iq Some other by (simp add: split_step_def)
          have "split_finish (split_loop ?st cs) =
            args ?st @ filter (\<lambda>t. t \<noteq> []) (glue (cur ?st) (cut_fields (lex_items q cs)))"
            using "2.IH"(4)[OF nb True Some other, of ?st] ne iq st' by simp
          then show ?thesis
            using st' nb True Some other by (simp add: glue_lit del: cut_fields.simps)
        qed
      qed
    next
      case nq: False
      show ?thesis
      proof (cases "c = SPACE \<and> q = None")
        case True
        let ?st = "split_step st c"
        have st': "?st = (if cur st \<noteq> [] then st\<lparr>args := args st @ [cur st], cur := []\<rparr> else st)"
          using nb nq True ne iq by (simp add: split_step_def)
        have "split_finish (split_loop ?st cs) =
            args ?st @ filter (\<lambda>t. t \<noteq> []) (glue (cur ?st) (cut_fields (lex_items q cs)))"
          using "2.IH"(5)[OF nb nq True, of ?st] ne iq st' by simp
        then show ?thesis
          using st' nb nq True by (cases "cut_fields (lex_items None cs)") (auto simp: cut_fields_nonempty)
      next
        case False
        let ?st = "split_step st c"
        have st': "?st = st\<lparr>cur := cur st @ [c]\<rparr>"
          using nb nq False ne iq by (auto simp add: split_step_def)
        have "split_finish (split_loop ?st cs) =
            args ?st @ filter (\<lambda>t. t \<noteq> []) (glue (cur ?st) (cut_fields (lex_items q cs)))"
          using "2.IH"(6)[OF nb nq False, of ?st] ne iq st' by simp
        then show ?thesis
          using st' nb nq False by (auto simp add: glue_lit simp del: cut_fields.simps)
      qed
    qed
  qed
qed

lemma splitArgs_spec: "splitArgs s = spec_split s"
proof -
  have "glue [] xs = xs" if "xs \<noteq> []" for xs :: "jsstring list"
    using that by (cases xs) auto
  then show ?thesis
    using split_loop_spec[of "\<lparr>args = [], cur = [], inQuote = None, esc = False\<rparr>" None s]
    by (simp add: splitArgs_def spec_split_def cut_fields_nonempty)
qed


lemma lex_items_quoted:
  "q \<notin> set t \<Longrightarrow> BACKSLASH \<notin> set t \<Longrightarrow> lex_items (Some q) t = map Lit t"
  by (induction t) auto

lemma cut_fields_lits: "cut_fields (map Lit t) = [t]"
  by (induction t) auto

lemma split_loop_append: "split_loop st (u @ v) = split_loop (split_loop st u) v"
  by (induction u arbitrary: st) auto

lemma split_step_no_esc: "\<not> esc st \<Longrightarrow> c \<noteq> BACKSLASH \<Longrightarrow> \<not> esc (split_step st c)"
  by (auto simp: split_step_def split: option.splits)

lemma split_loop_no_esc: "\<not> esc st \<Longrightarrow> BACKSLASH \<notin> set u \<Longrightarrow> \<not> esc (split_loop st u)"
proof (induction u arbitrary: st)
  case Nil
  then show ?case by simp
next
  case (Cons c u)
  have "c \<noteq> BACKSLASH" using Cons.prems(2) by auto
  then have "\<not> esc (split_step st c)" using Cons.prems(1) by (rule split_step_no_esc[rotated])
  moreover have "BACKSLASH \<notin> set u" using Cons.prems(2) by simp
  ultimately show ?case using Cons.IH by simp
qed

lemma splitArgs_trailing_backslash:
  assumes "BACKSLASH \<notin> set u"
  shows "\<exists>ts t. splitArgs (u @ [BACKSLASH]) = ts @ [t @ [BACKSLASH]]"
proof -
  let ?st = "split_loop \<lparr>args = [], cur = [], inQuote = None, esc = False\<rparr> u"
  have ne: "\<not> esc ?st" using assms by (simp add: split_loop_no_esc)
  have "splitArgs (u @ [BACKSLASH]) = args ?st @ [cur ?st @ [BACKSLASH]]"
    using ne by (simp add: splitArgs_def split_loop_append split_step_def split_finish_def)
  then show ?thesis by blast
qed

lemma splitArgs_open_quote:
  assumes "q = DQUOTE \<or> q = SQUOTE" "q \<notin> set t" "BACKSLASH \<notin> set t" "t \<noteq> []"
  shows "splitArgs (q # t) = [t]"
proof -
  have "q \<noteq> BACKSLASH" using assms(1) by (auto simp: DQUOTE_def SQUOTE_def BACKSLASH_def)
  then have "lex_items None (q # t) = map Lit t"
    using assms by (auto simp: lex_items_quoted)
  then show ?thesis using assms(4) by (simp add: splitArgs_spec spec_split_def cut_fields_lits)
qed

lemma splitArgs_escaped_char: "splitArgs [BACKSLASH, c] = [[c]]"
  by (simp add: splitArgs_def split_step_def split_finish_def)

text \<open>
  C1 (as amended). For every raw argument string, \<open>splitArgs\<close> computes what the rules
  say: its result is the two-pass reading \<open>spec_split\<close> of the rules (an unquoted space
  separates; a backslash makes the next code unit literal and is removed; a quote opens
  or closes a quotation of its own kind and is removed; the other quote inside a
  quotation is literal; a last backslash with nothing to escape stays as a backslash;
  empty pieces are dropped). No token is empty. An escaped character alone is one token,
  whatever the character. An opening quote that is never closed takes the rest of the
  string as one token. A trailing backslash after a string without backslashes ends the
  last token. \<open>split('a "b c" d') = [a, b c, d]\<close> and \<open>split('a\ b') = [a b]\<close>. The
  string \<open>it's "a" test\<close> is one token, \<open>its "a" test\<close>: the apostrophe opens a
  quotation that is never closed, and the double quotes inside it are literal. Only the
  space character separates: a tab between two letters stays inside the token.
\<close>

theorem C1_splitArgs_rules:
  "splitArgs s = spec_split s \<and>
   [] \<notin> set (splitArgs s) \<and>
   splitArgs [BACKSLASH, c] = [[c]] \<and>
   ((q = DQUOTE \<or> q = SQUOTE) \<and> q \<notin> set t \<and> BACKSLASH \<notin> set t \<and> t \<noteq> []
      \<longrightarrow> splitArgs (q # t) = [t]) \<and>
   (BACKSLASH \<notin> set u \<longrightarrow> (\<exists>ts w. splitArgs (u @ [BACKSLASH]) = ts @ [w @ [BACKSLASH]])) \<and>
   splitArgs (js ''a \"b c\" d'') = [js ''a'', js ''b c'', js ''d''] \<and>
   splitArgs (js ''a'' @ [BACKSLASH] @ js '' b'') = [js ''a b''] \<and>
   splitArgs (js ''it's \"a\" test'') = [js ''its \"a\" test''] \<and>
   splitArgs (js ''a'' @ [TAB] @ js ''b'') = [js ''a'' @ [TAB] @ js ''b'']"
proof -
  have 1: "splitArgs s = spec_split s" by (rule splitArgs_spec)
  have 2: "[] \<notin> set (splitArgs s)" by (simp add: splitArgs_spec spec_split_def)
  have 3: "splitArgs [BACKSLASH, c] = [[c]]" by (rule splitArgs_escaped_char)
  have 4: "(q = DQUOTE \<or> q = SQUOTE) \<and> q \<notin> set t \<and> BACKSLASH \<notin> set t \<and> t \<noteq> []
      \<longrightarrow> splitArgs (q # t) = [t]"
    using splitArgs_open_quote by blast
  have 5: "BACKSLASH \<notin> set u \<longrightarrow> (\<exists>ts w. splitArgs (u @ [BACKSLASH]) = ts @ [w @ [BACKSLASH]])"
    using splitArgs_trailing_backslash by blast
  have 6: "splitArgs (js ''a \"b c\" d'') = [js ''a'', js ''b c'', js ''d'']" by code_simp
  have 7: "splitArgs (js ''a'' @ [BACKSLASH] @ js '' b'') = [js ''a b'']" by code_simp
  have 8: "splitArgs (js ''it's \"a\" test'') = [js ''its \"a\" test'']" by code_simp
  have 9: "splitArgs (js ''a'' @ [TAB] @ js ''b'') = [js ''a'' @ [TAB] @ js ''b'']" by code_simp
  show ?thesis using 1 2 3 4 5 6 7 8 9 by (intro conjI)
qed

theorem C1_splitArgs_rules_witness:
  "splitArgs (js ''x \"y'') = spec_split (js ''x \"y'') \<and>
   splitArgs (DQUOTE # js ''b 'c' d'') = [js ''b 'c' d''] \<and>
   (\<exists>ts w. splitArgs (js ''a b'' @ [BACKSLASH]) = ts @ [w @ [BACKSLASH]]) \<and>
   splitArgs (js ''a b'' @ [BACKSLASH]) = [js ''a'', js ''b'' @ [BACKSLASH]]"
proof -
  have q: "(DQUOTE = DQUOTE \<or> DQUOTE = SQUOTE) \<and> DQUOTE \<notin> set (js ''b 'c' d'') \<and>
      BACKSLASH \<notin> set (js ''b 'c' d'') \<and> js ''b 'c' d'' \<noteq> []"
    by (simp add: js_def DQUOTE_def BACKSLASH_def)
  have u: "BACKSLASH \<notin> set (js ''a b'')" by (simp add: js_def BACKSLASH_def)
  have e: "splitArgs (js ''a b'' @ [BACKSLASH]) = [js ''a'', js ''b'' @ [BACKSLASH]]" by code_simp
  show ?thesis
    using C1_splitArgs_rules[of "js ''x \"y''" undefined DQUOTE "js ''b 'c' d''" "js ''a b''"] q u e
    by blast
qed

text \<open>
  The claim as it was stated fails twice: it gives \<open>[its, a, test]\<close> for the string
  \<open>it's "a" test\<close>, and it lets every unquoted whitespace character separate tokens,
  where a tab (which \<open>trim\<close> does count as whitespace) does not.
\<close>

theorem C1_splitArgs_counterexample:
  "splitArgs (js ''it's \"a\" test'') \<noteq> [js ''its'', js ''a'', js ''test''] \<and>
   splitArgs (js ''it's \"a\" test'') = [js ''its \"a\" test''] \<and>
   splitArgs (js ''a'' @ [TAB] @ js ''b'') \<noteq> [js ''a'', js ''b''] \<and>
   is_ws TAB"
  by code_simp

section \<open>Shared facts about output\<close>

lemma fold_appendOutput:
  "fold (\<lambda>x. appendOutput (f x) ty) xs s =
     s\<lparr>terminalOutput := terminalOutput s @ map (\<lambda>x. (f x, ty)) xs\<rparr>"
  by (induction xs arbitrary: s) (simp_all add: appendOutput_def)

lemma runHelp_output:
  "runHelp reg s =
     s\<lparr>terminalOutput := terminalOutput s @ [(js ''Available commands:'', Style_plain)] @
        map (\<lambda>e. (js ''- '' @ fst e @ js '': '' @ description (snd e), Style_plain)) reg @
        [([], Style_plain)]\<rparr>"
  by (simp add: runHelp_def case_prod_unfold fold_appendOutput appendOutput_def)

section \<open>Dispatch picks the first matching entry\<close>

lemma startsWith_prefix: "startsWith s key \<longleftrightarrow> prefix key s"
proof
  assume "startsWith s key"
  then have "s = key @ drop (length key) s"
    unfolding startsWith_def by (metis append_take_drop_id)
  then show "prefix key s" by (metis prefixI)
next
  assume "prefix key s"
  then obtain zs where "s = key @ zs" by (auto simp: prefix_def)
  then show "startsWith s key" by (simp add: startsWith_def)
qed

lemma find_command_first:
  "reg = pre @ (key, spec) # post \<Longrightarrow> prefix key command \<Longrightarrow>
   \<forall>e\<in>set pre. \<not> prefix (fst e) command \<Longrightarrow>
   find_command reg command = Some (key, spec)"
  by (induction pre arbitrary: reg) (auto simp: startsWith_prefix)

lemma find_command_none:
  "\<forall>e\<in>set reg. \<not> prefix (fst e) command \<Longrightarrow> find_command reg command = None"
  by (induction reg) (auto simp: startsWith_prefix)

lemma find_command_SomeD:
  "find_command reg command = Some (key, spec) \<Longrightarrow>
   \<exists>pre post. reg = pre @ (key, spec) # post \<and> prefix key command \<and>
      (\<forall>e\<in>set pre. \<not> prefix (fst e) command)"
proof (induction reg)
  case Nil
  then show ?case by simp
next
  case (Cons e reg)
  obtain k sp where e: "e = (k, sp)" by (cases e)
  show ?case
  proof (cases "startsWith command k")
    case True
    with Cons.prems e have "(k, sp) = (key, spec)" by simp
    with True e have "e # reg = [] @ (key, spec) # reg \<and> prefix key command \<and>
      (\<forall>e\<in>set []. \<not> prefix (fst e) command)"
      by (simp add: startsWith_prefix)
    then show ?thesis by blast
  next
    case False
    with Cons.prems e have "find_command reg command = Some (key, spec)" by simp
    from Cons.IH[OF this] obtain pre post where
      "reg = pre @ (key, spec) # post" "prefix key command"
      "\<forall>e\<in>set pre. \<not> prefix (fst e) command" by blast
    with False e have "e # reg = (e # pre) @ (key, spec) # post \<and> prefix key command \<and>
      (\<forall>x\<in>set (e # pre). \<not> prefix (fst x) command)"
      by (simp add: startsWith_prefix)
    then show ?thesis by blast
  qed
qed

lemma find_command_NoneD:
  "find_command reg command = None \<Longrightarrow> \<forall>e\<in>set reg. \<not> prefix (fst e) command"
proof (induction reg)
  case Nil
  then show ?case by simp
next
  case (Cons e reg)
  obtain k sp where e: "e = (k, sp)" by (cases e)
  from Cons.prems e have "\<not> startsWith command k" and "find_command reg command = None"
    by (auto split: if_splits)
  with Cons.IH e show ?case by (simp add: startsWith_prefix)
qed

lemma replace_first_prefix:
  "prefix key command \<Longrightarrow> replace_first key command = drop (length key) command"
  by (cases command) (auto simp: startsWith_prefix)

text \<open>
  What \<open>runTerminalCommand\<close> does with the command string it is given: the first entry
  whose key is a prefix of it is found and its action called; with no such entry only the
  two lines of the unknown command are printed.
\<close>

lemma runTerminalCommand_first:
  assumes "reg = pre @ (key, spec) # post" "prefix key command"
    "\<forall>e\<in>set pre. \<not> prefix (fst e) command"
  shows "find_command reg command = Some (key, spec)"
    and "runTerminalCommand reg command s =
          dispatch_end
            (perform reg (action spec) (splitArgs (trim (drop (length key) command)))
               (s\<lparr>commandHistory := commandHistory s @ [command],
                   historyIndex := int (length (commandHistory s @ [command])),
                   terminalOutput := terminalOutput s @ [(js ''$ '' @ command, Style_info)],
                   inputValue := [], inputDisabled := True\<rparr>))"
proof -
  show f: "find_command reg command = Some (key, spec)"
    using assms by (rule find_command_first)
  have "replace_first key command = drop (length key) command"
    using assms(2) by (rule replace_first_prefix)
  then show "runTerminalCommand reg command s =
          dispatch_end
            (perform reg (action spec) (splitArgs (trim (drop (length key) command)))
               (s\<lparr>commandHistory := commandHistory s @ [command],
                   historyIndex := int (length (commandHistory s @ [command])),
                   terminalOutput := terminalOutput s @ [(js ''$ '' @ command, Style_info)],
                   inputValue := [], inputDisabled := True\<rparr>))"
    using f by (simp add: runTerminalCommand_def dispatch_begin_def appendOutput_def Let_def)
qed

lemma runTerminalCommand_none:
  assumes "\<forall>e\<in>set reg. \<not> prefix (fst e) command"
  shows "find_command reg command = None"
    and "runTerminalCommand reg command s =
          s\<lparr>terminalOutput := terminalOutput s @
              [(js ''Unknown command: '' @ command, Style_error),
               (js ''Type \"help\" to see the list of available commands.'', Style_info)]\<rparr>"
proof -
  show f: "find_command reg command = None" using assms by (rule find_command_none)
  then show "runTerminalCommand reg command s =
          s\<lparr>terminalOutput := terminalOutput s @
              [(js ''Unknown command: '' @ command, Style_error),
               (js ''Type \"help\" to see the list of available commands.'', Style_info)]\<rparr>"
    by (simp add: runTerminalCommand_def unknown_command_def appendOutput_def)
qed

lemma keydown_Enter_nonblank:
  "trim (inputValue s) \<noteq> [] \<Longrightarrow>
   keydown reg Enter s = (runTerminalCommand reg (trim (inputValue s)) s)\<lparr>inputValue := []\<rparr>"
  by (simp add: keydown_Enter_def Let_def)

lemma keydown_Enter_blank: "trim (inputValue s) = [] \<Longrightarrow> keydown reg Enter s = s"
  by (simp add: keydown_Enter_def Let_def)

text \<open>
  C2 (as amended). Dispatch works on the typed input line with the whitespace at its ends
  trimmed. If the trimmed line is empty, Enter does nothing: no command is resolved and
  no message is printed. Otherwise the command is the trimmed line, and it resolves to
  the first registry entry, in declaration order, whose key is a prefix of the trimmed
  line: when the registry splits into entries whose keys are no prefix, an entry whose
  key is one, and the rest, that entry is the one found, and its action is the one called
  (with the tokens of what follows the key), after the trimmed line was recorded and
  echoed and the input disabled. When no key is a prefix of the trimmed line, the only
  effects are the two lines \<open>Unknown command: ...\<close> and the hint to type \<open>help\<close> (and the
  emptied input line): no action is called, nothing is sent to the worker, the history
  is unchanged. The same holds of \<open>runTerminalCommand\<close> for every command string it is
  given, and it finds nothing exactly when no key is a prefix of that string.
\<close>

theorem C2_dispatch:
  "(trim (inputValue s) = [] \<longrightarrow> keydown reg Enter s = s) \<and>
   (trim (inputValue s) \<noteq> [] \<and>
    reg = pre @ (key, spec) # post \<and> prefix key (trim (inputValue s)) \<and>
      (\<forall>e\<in>set pre. \<not> prefix (fst e) (trim (inputValue s))) \<longrightarrow>
        find_command reg (trim (inputValue s)) = Some (key, spec) \<and>
        keydown reg Enter s =
          (dispatch_end
            (perform reg (action spec)
               (splitArgs (trim (drop (length key) (trim (inputValue s)))))
               (s\<lparr>commandHistory := commandHistory s @ [trim (inputValue s)],
                   historyIndex := int (length (commandHistory s @ [trim (inputValue s)])),
                   terminalOutput := terminalOutput s @
                     [(js ''$ '' @ trim (inputValue s), Style_info)],
                   inputValue := [], inputDisabled := True\<rparr>)))\<lparr>inputValue := []\<rparr>) \<and>
   (trim (inputValue s) \<noteq> [] \<and>
    (\<forall>e\<in>set reg. \<not> prefix (fst e) (trim (inputValue s))) \<longrightarrow>
        find_command reg (trim (inputValue s)) = None \<and>
        keydown reg Enter s =
          s\<lparr>terminalOutput := terminalOutput s @
              [(js ''Unknown command: '' @ trim (inputValue s), Style_error),
               (js ''Type \"help\" to see the list of available commands.'', Style_info)],
            inputValue := []\<rparr>) \<and>
   (reg = pre @ (key, spec) # post \<and> prefix key command \<and>
      (\<forall>e\<in>set pre. \<not> prefix (fst e) command) \<longrightarrow>
        find_command reg command = Some (key, spec) \<and>
        runTerminalCommand reg command s =
          dispatch_end
            (perform reg (action spec) (splitArgs (trim (drop (length key) command)))
               (s\<lparr>commandHistory := commandHistory s @ [command],
                   historyIndex := int (length (commandHistory s @ [command])),
                   terminalOutput := terminalOutput s @ [(js ''$ '' @ command, Style_info)],
                   inputValue := [], inputDisabled := True\<rparr>))) \<and>
   ((\<forall>e\<in>set reg. \<not> prefix (fst e) command) \<longrightarrow>
        find_command reg command = None \<and>
        runTerminalCommand reg command s =
          s\<lparr>terminalOutput := terminalOutput s @
              [(js ''Unknown command: '' @ command, Style_error),
               (js ''Type \"help\" to see the list of available commands.'', Style_info)]\<rparr>) \<and>
   (find_command reg command = None \<longleftrightarrow> (\<forall>e\<in>set reg. \<not> prefix (fst e) command))"
proof (intro conjI impI)
  assume "trim (inputValue s) = []"
  then show "keydown reg Enter s = s" by (rule keydown_Enter_blank)
next
  let ?l = "trim (inputValue s)"
  assume a: "?l \<noteq> [] \<and> reg = pre @ (key, spec) # post \<and> prefix key ?l \<and>
      (\<forall>e\<in>set pre. \<not> prefix (fst e) ?l)"
  then have ne: "?l \<noteq> []" and r: "reg = pre @ (key, spec) # post" and p: "prefix key ?l"
    and n: "\<forall>e\<in>set pre. \<not> prefix (fst e) ?l"
    by simp_all
  show "find_command reg ?l = Some (key, spec)"
    using r p n by (rule runTerminalCommand_first(1))
  show "keydown reg Enter s =
          (dispatch_end
            (perform reg (action spec) (splitArgs (trim (drop (length key) ?l)))
               (s\<lparr>commandHistory := commandHistory s @ [?l],
                   historyIndex := int (length (commandHistory s @ [?l])),
                   terminalOutput := terminalOutput s @ [(js ''$ '' @ ?l, Style_info)],
                   inputValue := [], inputDisabled := True\<rparr>)))\<lparr>inputValue := []\<rparr>"
    unfolding keydown_Enter_nonblank[OF ne] runTerminalCommand_first(2)[OF r p n] ..
next
  let ?l = "trim (inputValue s)"
  assume a: "?l \<noteq> [] \<and> (\<forall>e\<in>set reg. \<not> prefix (fst e) ?l)"
  then have ne: "?l \<noteq> []" and n: "\<forall>e\<in>set reg. \<not> prefix (fst e) ?l"
    by simp_all
  show "find_command reg ?l = None" using n by (rule runTerminalCommand_none(1))
  show "keydown reg Enter s =
          s\<lparr>terminalOutput := terminalOutput s @
              [(js ''Unknown command: '' @ ?l, Style_error),
               (js ''Type \"help\" to see the list of available commands.'', Style_info)],
            inputValue := []\<rparr>"
    unfolding keydown_Enter_nonblank[OF ne] runTerminalCommand_none(2)[OF n] ..
next
  assume a: "reg = pre @ (key, spec) # post \<and> prefix key command \<and>
      (\<forall>e\<in>set pre. \<not> prefix (fst e) command)"
  then have r: "reg = pre @ (key, spec) # post" and p: "prefix key command"
    and n: "\<forall>e\<in>set pre. \<not> prefix (fst e) command"
    by simp_all
  show "find_command reg command = Some (key, spec)"
    using r p n by (rule runTerminalCommand_first(1))
  show "runTerminalCommand reg command s =
          dispatch_end
            (perform reg (action spec) (splitArgs (trim (drop (length key) command)))
               (s\<lparr>commandHistory := commandHistory s @ [command],
                   historyIndex := int (length (commandHistory s @ [command])),
                   terminalOutput := terminalOutput s @ [(js ''$ '' @ command, Style_info)],
                   inputValue := [], inputDisabled := True\<rparr>))"
    using r p n by (rule runTerminalCommand_first(2))
next
  assume n: "\<forall>e\<in>set reg. \<not> prefix (fst e) command"
  show "find_command reg command = None" using n by (rule runTerminalCommand_none(1))
  show "runTerminalCommand reg command s =
          s\<lparr>terminalOutput := terminalOutput s @
              [(js ''Unknown command: '' @ command, Style_error),
               (js ''Type \"help\" to see the list of available commands.'', Style_info)]\<rparr>"
    using n by (rule runTerminalCommand_none(2))
next
  show "find_command reg command = None \<longleftrightarrow> (\<forall>e\<in>set reg. \<not> prefix (fst e) command)"
    using find_command_none find_command_NoneD by blast
qed

theorem C2_dispatch_witness:
  "find_command TERMINAL_COMMANDS (js ''clear now'') =
     Some (js ''clear'', \<lparr>description = js ''Clear the terminal output'', action = ClearTerminal\<rparr>) \<and>
   terminalOutput (runTerminalCommand TERMINAL_COMMANDS (js ''clear now'') controller_init) = [] \<and>
   find_command TERMINAL_COMMANDS (js ''cls'') = None \<and>
   runTerminalCommand TERMINAL_COMMANDS (js ''cls'') controller_init =
     controller_init\<lparr>terminalOutput :=
       [(js ''Unknown command: cls'', Style_error),
        (js ''Type \"help\" to see the list of available commands.'', Style_info)]\<rparr> \<and>
   keydown TERMINAL_COMMANDS Enter (type_line (js ''  '') controller_init) =
     type_line (js ''  '') controller_init \<and>
   commandHistory (keydown TERMINAL_COMMANDS Enter (type_line (js '' clear now '') controller_init)) =
     [js ''clear now''] \<and>
   keydown TERMINAL_COMMANDS Enter (type_line (js '' cls '') controller_init) =
     (type_line (js '' cls '') controller_init)\<lparr>terminalOutput :=
       [(js ''Unknown command: cls'', Style_error),
        (js ''Type \"help\" to see the list of available commands.'', Style_info)],
       inputValue := []\<rparr>"
proof -
  let ?blank = "type_line (js ''  '') controller_init"
  let ?typed = "type_line (js '' clear now '') controller_init"
  let ?wrong = "type_line (js '' cls '') controller_init"
  have t: "trim (inputValue ?blank) = []" "trim (inputValue ?typed) = js ''clear now''"
    "trim (inputValue ?wrong) = js ''cls''"
    by (simp_all add: type_line_def trim_def is_ws_def js_def)
  have ne: "js ''clear now'' \<noteq> []" "js ''cls'' \<noteq> []" by (simp_all add: js_def)
  let ?pre = "[(js ''help'', \<lparr>description = js ''Show this help message'', action = RunHelp\<rparr>)]"
  let ?post = "[(js ''python just_watch_search.py'',
        \<lparr>description = js ''Run the JustWatch search script'', action = RunJustWatchSearch\<rparr>)]"
  let ?spec = "\<lparr>description = js ''Clear the terminal output'', action = ClearTerminal\<rparr>"
  have h1: "TERMINAL_COMMANDS = ?pre @ (js ''clear'', ?spec) # ?post \<and>
      prefix (js ''clear'') (js ''clear now'') \<and>
      (\<forall>e\<in>set ?pre. \<not> prefix (fst e) (js ''clear now''))"
    by (simp add: TERMINAL_COMMANDS_def js_def)
  have h2: "\<forall>e\<in>set TERMINAL_COMMANDS. \<not> prefix (fst e) (js ''cls'')"
    by (simp add: TERMINAL_COMMANDS_def js_def)
  have a: "find_command TERMINAL_COMMANDS (js ''clear now'') = Some (js ''clear'', ?spec)"
    and b: "runTerminalCommand TERMINAL_COMMANDS (js ''clear now'') controller_init =
          dispatch_end
            (perform TERMINAL_COMMANDS (action ?spec) (splitArgs (trim (drop (length (js ''clear'')) (js ''clear now''))))
               (controller_init\<lparr>commandHistory := commandHistory controller_init @ [js ''clear now''],
                   historyIndex := int (length (commandHistory controller_init @ [js ''clear now''])),
                   terminalOutput := terminalOutput controller_init @ [(js ''$ '' @ js ''clear now'', Style_info)],
                   inputValue := [], inputDisabled := True\<rparr>))"
    using C2_dispatch[of controller_init TERMINAL_COMMANDS ?pre "js ''clear''" ?spec ?post
        "js ''clear now''"] h1
    by blast+
  have c: "find_command TERMINAL_COMMANDS (js ''cls'') = None"
    and d: "runTerminalCommand TERMINAL_COMMANDS (js ''cls'') controller_init =
          controller_init\<lparr>terminalOutput := terminalOutput controller_init @
              [(js ''Unknown command: '' @ js ''cls'', Style_error),
               (js ''Type \"help\" to see the list of available commands.'', Style_info)]\<rparr>"
    using C2_dispatch[of controller_init TERMINAL_COMMANDS "[]" "[]" ?spec "[]" "js ''cls''"] h2
    by blast+
  have e: "terminalOutput (runTerminalCommand TERMINAL_COMMANDS (js ''clear now'') controller_init) = []"
    unfolding b by (simp add: dispatch_end_def clearTerminal_def)
  have f: "terminalOutput controller_init = []" by (simp add: controller_init_def)
  have g: "js ''Unknown command: '' @ js ''cls'' = js ''Unknown command: cls''" by (simp add: js_def)
  have k1: "keydown TERMINAL_COMMANDS Enter ?blank = ?blank"
    using C2_dispatch[of ?blank TERMINAL_COMMANDS "[]" "[]" ?spec "[]" "[]"] t(1) by blast
  have k2: "keydown TERMINAL_COMMANDS Enter ?typed =
          (dispatch_end
            (perform TERMINAL_COMMANDS (action ?spec)
               (splitArgs (trim (drop (length (js ''clear'')) (trim (inputValue ?typed)))))
               (?typed\<lparr>commandHistory := commandHistory ?typed @ [trim (inputValue ?typed)],
                   historyIndex := int (length (commandHistory ?typed @ [trim (inputValue ?typed)])),
                   terminalOutput := terminalOutput ?typed @
                     [(js ''$ '' @ trim (inputValue ?typed), Style_info)],
                   inputValue := [], inputDisabled := True\<rparr>)))\<lparr>inputValue := []\<rparr>"
    using C2_dispatch[of ?typed TERMINAL_COMMANDS ?pre "js ''clear''" ?spec ?post "[]"] h1 ne
    unfolding t by blast
  have k3: "keydown TERMINAL_COMMANDS Enter ?wrong =
          ?wrong\<lparr>terminalOutput := terminalOutput ?wrong @
              [(js ''Unknown command: '' @ trim (inputValue ?wrong), Style_error),
               (js ''Type \"help\" to see the list of available commands.'', Style_info)],
            inputValue := []\<rparr>"
    using C2_dispatch[of ?wrong TERMINAL_COMMANDS "[]" "[]" ?spec "[]" "[]"] h2 ne
    unfolding t by blast
  have h: "commandHistory (keydown TERMINAL_COMMANDS Enter ?typed) = [js ''clear now'']"
    unfolding k2 t
    by (simp add: dispatch_end_def clearTerminal_def type_line_def controller_init_def)
  have o: "terminalOutput ?wrong = []" by (simp add: type_line_def controller_init_def)
  show ?thesis using a c d e f g k1 k3 h o unfolding t by simp
qed

text \<open>
  The claim as it was stated takes the typed input string as it is. With the registry of
  the source, no key is a prefix of the typed line \<open>" help"\<close> (a leading space), so the
  claim has the unknown command message printed and no action called; the handler trims
  the line, \<open>help\<close> is dispatched, recorded in the history and echoed. No key is a prefix
  of a line of two spaces either, and there the handler prints nothing at all.
\<close>

theorem C2_dispatch_counterexample:
  "filter (\<lambda>k. prefix k (js '' help'')) (map fst TERMINAL_COMMANDS) = [] \<and>
   commandHistory (keydown TERMINAL_COMMANDS Enter (type_line (js '' help'') controller_init)) =
     [js ''help''] \<and>
   hd (terminalOutput (keydown TERMINAL_COMMANDS Enter (type_line (js '' help'') controller_init))) =
     (js ''$ help'', Style_info) \<and>
   filter (\<lambda>k. prefix k (js ''  '')) (map fst TERMINAL_COMMANDS) = [] \<and>
   terminalOutput (keydown TERMINAL_COMMANDS Enter (type_line (js ''  '') controller_init)) = []"
proof -
  have 1: "filter (\<lambda>k. prefix k (js '' help'')) (map fst TERMINAL_COMMANDS) = []"
    and 4: "filter (\<lambda>k. prefix k (js ''  '')) (map fst TERMINAL_COMMANDS) = []"
    by (simp_all add: TERMINAL_COMMANDS_def js_def)
  have t: "trim (inputValue (type_line (js '' help'') controller_init)) = js ''help''"
    "trim (inputValue (type_line (js ''  '') controller_init)) = []"
    by (simp_all add: type_line_def trim_def is_ws_def js_def)
  have n: "js ''help'' \<noteq> []" by (simp add: js_def)
  have f: "find_command TERMINAL_COMMANDS (js ''help'') =
      Some (js ''help'', \<lparr>description = js ''Show this help message'', action = RunHelp\<rparr>)"
    by (simp add: TERMINAL_COMMANDS_def startsWith_def js_def)
  have j: "js ''$ '' @ js ''help'' = js ''$ help''" by (simp add: js_def)
  have k: "keydown TERMINAL_COMMANDS Enter (type_line (js '' help'') controller_init) =
      (runTerminalCommand TERMINAL_COMMANDS (js ''help'') (type_line (js '' help'') controller_init))
        \<lparr>inputValue := []\<rparr>"
    using keydown_Enter_nonblank[of "type_line (js '' help'') controller_init" TERMINAL_COMMANDS] n
    unfolding t by simp
  have 2: "commandHistory (keydown TERMINAL_COMMANDS Enter (type_line (js '' help'') controller_init)) =
     [js ''help'']"
    unfolding k
    by (simp add: runTerminalCommand_def f dispatch_begin_def dispatch_end_def runHelp_output
          appendOutput_def Let_def type_line_def controller_init_def)
  have 3: "hd (terminalOutput (keydown TERMINAL_COMMANDS Enter (type_line (js '' help'') controller_init))) =
     (js ''$ help'', Style_info)"
    unfolding k
    by (simp add: runTerminalCommand_def f dispatch_begin_def dispatch_end_def runHelp_output
          appendOutput_def Let_def type_line_def controller_init_def j)
  have 5: "terminalOutput (keydown TERMINAL_COMMANDS Enter (type_line (js ''  '') controller_init)) = []"
    using keydown_Enter_blank[of "type_line (js ''  '') controller_init" TERMINAL_COMMANDS] t(2)
    by (simp add: type_line_def controller_init_def)
  show ?thesis using 1 2 3 4 5 by (intro conjI)
qed

section \<open>The history records the dispatched commands\<close>

lemma perform_history:
  "commandHistory (perform reg a as s) = commandHistory s \<and>
   historyIndex (perform reg a as s) = historyIndex s \<and>
   inputDisabled (perform reg a as s) = inputDisabled s \<and>
   inputValue (perform reg a as s) = inputValue s"
  by (cases a)
     (simp_all add: runHelp_output clearTerminal_def runJustWatchSearch_def appendOutput_def
        updateStatus_def Let_def)

lemma runTerminalCommand_found:
  assumes "find_command reg command = Some e"
  shows "commandHistory (runTerminalCommand reg command s) = commandHistory s @ [command]"
    and "historyIndex (runTerminalCommand reg command s) = int (length (commandHistory s)) + 1"
    and "inputDisabled (runTerminalCommand reg command s) = False"
  using assms
  by (simp_all add: runTerminalCommand_def dispatch_begin_def dispatch_end_def perform_history
        appendOutput_def Let_def)

lemma runTerminalCommand_unknown:
  assumes "find_command reg command = None"
  shows "commandHistory (runTerminalCommand reg command s) = commandHistory s"
    and "historyIndex (runTerminalCommand reg command s) = historyIndex s"
  using assms
  by (simp_all add: runTerminalCommand_def unknown_command_def appendOutput_def)

lemma keydown_Enter_history:
  "commandHistory (keydown_Enter reg (type_line l s)) =
     commandHistory s @ (if dispatches reg l then [trim l] else [])"
proof (cases "trim l = []")
  case True
  then show ?thesis by (simp add: keydown_Enter_def type_line_def dispatches_def)
next
  case False
  show ?thesis
  proof (cases "find_command reg (trim l)")
    case None
    with False show ?thesis
      by (simp add: keydown_Enter_def type_line_def dispatches_def Let_def
            runTerminalCommand_unknown)
  next
    case (Some e)
    with False show ?thesis
      by (simp add: keydown_Enter_def type_line_def dispatches_def Let_def
            runTerminalCommand_found)
  qed
qed

lemma submit_all_history:
  "commandHistory (submit_all reg ls s) = commandHistory s @ map trim (filter (dispatches reg) ls)"
  by (induction ls arbitrary: s) (simp_all add: keydown_Enter_history)

text \<open>
  C7. For every sequence of submitted lines, the history after them is the history
  before followed by the dispatched commands, in order: one entry for each submission
  that is dispatched, none for a submission that matches no command (or is blank). From
  the initial state its length is the number of dispatched submissions, whatever fails
  in between. A dispatch appends the command and sets the browse cursor to the new
  length of the history, the fresh position; an unknown command changes neither.
\<close>

theorem C7_history:
  "commandHistory (submit_all reg ls s) =
     commandHistory s @ map trim (filter (dispatches reg) ls) \<and>
   length (commandHistory (submit_all reg ls controller_init)) =
     length (filter (dispatches reg) ls) \<and>
   (find_command reg command \<noteq> None \<longrightarrow>
      commandHistory (runTerminalCommand reg command s) = commandHistory s @ [command] \<and>
      historyIndex (runTerminalCommand reg command s) =
        int (length (commandHistory (runTerminalCommand reg command s)))) \<and>
   (find_command reg command = None \<longrightarrow>
      commandHistory (runTerminalCommand reg command s) = commandHistory s \<and>
      historyIndex (runTerminalCommand reg command s) = historyIndex s)"
proof (intro conjI impI)
  show "commandHistory (submit_all reg ls s) =
     commandHistory s @ map trim (filter (dispatches reg) ls)"
    by (rule submit_all_history)
  show "length (commandHistory (submit_all reg ls controller_init)) =
     length (filter (dispatches reg) ls)"
    by (simp add: submit_all_history controller_init_def)
next
  assume "find_command reg command \<noteq> None"
  then obtain e where e: "find_command reg command = Some e" by blast
  show "commandHistory (runTerminalCommand reg command s) = commandHistory s @ [command]"
    using runTerminalCommand_found(1)[OF e] .
  show "historyIndex (runTerminalCommand reg command s) =
        int (length (commandHistory (runTerminalCommand reg command s)))"
    using runTerminalCommand_found(1,2)[OF e] by simp
next
  assume n: "find_command reg command = None"
  show "commandHistory (runTerminalCommand reg command s) = commandHistory s"
    using runTerminalCommand_unknown(1)[OF n] .
  show "historyIndex (runTerminalCommand reg command s) = historyIndex s"
    using runTerminalCommand_unknown(2)[OF n] .
qed

theorem C7_history_witness:
  "commandHistory (submit_all TERMINAL_COMMANDS [js ''help'', js ''nope'', js ''   '', js '' clear  ''] controller_init)
     = [js ''help'', js ''clear''] \<and>
   historyIndex (runTerminalCommand TERMINAL_COMMANDS (js ''help'') controller_init) = 1 \<and>
   historyIndex (runTerminalCommand TERMINAL_COMMANDS (js ''nope'') controller_init) = - 1"
proof -
  let ?ls = "[js ''help'', js ''nope'', js ''   '', js '' clear  '']"
  have t: "trim (js ''help'') = js ''help''" "trim (js ''nope'') = js ''nope''"
    "trim (js ''   '') = []" "trim (js '' clear  '') = js ''clear''"
    by (simp_all add: trim_def is_ws_def js_def)
  have h: "find_command TERMINAL_COMMANDS (js ''help'') \<noteq> None"
    and n: "find_command TERMINAL_COMMANDS (js ''nope'') = None"
    and c: "find_command TERMINAL_COMMANDS (js ''clear'') \<noteq> None"
    by (simp_all add: TERMINAL_COMMANDS_def startsWith_def js_def)
  have e: "js ''help'' \<noteq> []" "js ''nope'' \<noteq> []" "js ''clear'' \<noteq> []" by (simp_all add: js_def)
  have f: "map trim (filter (dispatches TERMINAL_COMMANDS) ?ls) = [js ''help'', js ''clear'']"
    by (simp add: dispatches_def t h n c e)
  have i: "commandHistory controller_init = []" "historyIndex controller_init = - 1"
    by (simp_all add: controller_init_def)
  show ?thesis
    using C7_history[of TERMINAL_COMMANDS ?ls controller_init "js ''help''"]
      C7_history[of TERMINAL_COMMANDS ?ls controller_init "js ''nope''"] f h n i
    by simp
qed

section \<open>History navigation\<close>

lemma arrow_empty: "commandHistory s = [] \<Longrightarrow> keydown_Arrow up s = s"
  by (simp add: keydown_Arrow_def)

lemma up_step:
  assumes "commandHistory s \<noteq> []"
    and "i = (if historyIndex s < 0 \<or> historyIndex s > int (length (commandHistory s))
              then int (length (commandHistory s)) else historyIndex s)"
  shows "keydown_Arrow True s = show_history (max 0 (i - 1)) s"
  using assms by (auto simp: keydown_Arrow_def Let_def max_def)

lemma show_history_fields:
  "commandHistory (show_history i s) = commandHistory s"
  "historyIndex (show_history i s) = i"
  "0 \<le> i \<Longrightarrow> i < int (length (commandHistory s)) \<Longrightarrow>
     inputValue (show_history i s) = commandHistory s ! nat i"
  by (simp_all add: show_history_def Let_def)

lemma up_in_range:
  assumes "commandHistory s \<noteq> []" "0 \<le> historyIndex s"
    "historyIndex s \<le> int (length (commandHistory s))"
  shows "commandHistory (keydown_Arrow True s) = commandHistory s"
    and "historyIndex (keydown_Arrow True s) = max 0 (historyIndex s - 1)"
    and "inputValue (keydown_Arrow True s) = commandHistory s ! nat (max 0 (historyIndex s - 1))"
proof -
  have e: "keydown_Arrow True s = show_history (max 0 (historyIndex s - 1)) s"
    using up_step[OF assms(1), of "historyIndex s"] assms(2,3) by simp
  show "commandHistory (keydown_Arrow True s) = commandHistory s"
    and "historyIndex (keydown_Arrow True s) = max 0 (historyIndex s - 1)"
    by (simp_all add: e show_history_fields)
  have "max 0 (historyIndex s - 1) < int (length (commandHistory s))"
    using assms by (cases "commandHistory s") auto
  then show "inputValue (keydown_Arrow True s) = commandHistory s ! nat (max 0 (historyIndex s - 1))"
    by (simp add: e show_history_fields)
qed

lemma up_any:
  assumes "commandHistory s \<noteq> []"
  shows "commandHistory (keydown_Arrow True s) = commandHistory s"
    and "0 \<le> historyIndex (keydown_Arrow True s)"
    and "historyIndex (keydown_Arrow True s) < int (length (commandHistory s))"
proof -
  let ?n = "int (length (commandHistory s))"
  let ?i = "if historyIndex s < 0 \<or> historyIndex s > ?n then ?n else historyIndex s"
  have e: "keydown_Arrow True s = show_history (max 0 (?i - 1)) s"
    using up_step[OF assms, of ?i] by simp
  have n: "0 < ?n" using assms by simp
  show "commandHistory (keydown_Arrow True s) = commandHistory s"
    by (simp add: e show_history_fields)
  show "0 \<le> historyIndex (keydown_Arrow True s)"
    unfolding e show_history_fields by simp
  show "historyIndex (keydown_Arrow True s) < ?n"
    unfolding e show_history_fields using n by auto
qed

lemma up_iter:
  assumes "commandHistory s \<noteq> []" "0 \<le> historyIndex s"
    "historyIndex s \<le> int (length (commandHistory s))"
  shows "commandHistory ((keydown_Arrow True ^^ m) s) = commandHistory s \<and>
         historyIndex ((keydown_Arrow True ^^ m) s) = max 0 (historyIndex s - int m)"
proof (induction m)
  case 0
  then show ?case using assms by simp
next
  case (Suc m)
  let ?t = "(keydown_Arrow True ^^ m) s"
  have h: "commandHistory ?t = commandHistory s"
    and i: "historyIndex ?t = max 0 (historyIndex s - int m)"
    using Suc by simp_all
  have r: "commandHistory ?t \<noteq> []" "0 \<le> historyIndex ?t"
    "historyIndex ?t \<le> int (length (commandHistory ?t))"
    using assms h i by auto
  show ?case
    using up_in_range(1,2)[OF r] h i by (simp add: max_def)
qed

lemma up_stabilises:
  assumes "commandHistory s \<noteq> []" "length (commandHistory s) \<le> m"
  shows "historyIndex ((keydown_Arrow True ^^ m) s) = 0"
    and "commandHistory ((keydown_Arrow True ^^ m) s) = commandHistory s"
proof -
  obtain k where m: "m = Suc k" using assms by (cases m) auto
  let ?t = "keydown_Arrow True s"
  have t: "commandHistory ?t = commandHistory s" "0 \<le> historyIndex ?t"
    "historyIndex ?t < int (length (commandHistory s))"
    using up_any[OF assms(1)] by simp_all
  have r: "commandHistory ?t \<noteq> []" "0 \<le> historyIndex ?t"
    "historyIndex ?t \<le> int (length (commandHistory ?t))"
    using t assms(1) by simp_all
  have f: "(keydown_Arrow True ^^ m) s = (keydown_Arrow True ^^ k) ?t"
    by (simp add: m funpow_swap1)
  show "historyIndex ((keydown_Arrow True ^^ m) s) = 0"
    unfolding f using up_iter[OF r, of k] t assms(2) m by simp
  show "commandHistory ((keydown_Arrow True ^^ m) s) = commandHistory s"
    unfolding f using up_iter[OF r, of k] t by simp
qed

lemma down_past_newest:
  assumes "commandHistory s \<noteq> []"
    and "historyIndex s < 0 \<or> int (length (commandHistory s)) - 1 \<le> historyIndex s"
  shows "keydown_Arrow False s =
    s\<lparr>historyIndex := int (length (commandHistory s)), inputValue := []\<rparr>"
  using assms by (auto simp: keydown_Arrow_def Let_def)

lemma up_down_fresh:
  assumes "commandHistory s \<noteq> []" "historyIndex s = int (length (commandHistory s))"
  shows "inputValue (keydown_Arrow True s) = last (commandHistory s)"
    and "historyIndex (keydown_Arrow True s) = int (length (commandHistory s)) - 1"
    and "keydown_Arrow False (keydown_Arrow True s) =
      s\<lparr>inputValue := [],
         selection := (length (last (commandHistory s)), length (last (commandHistory s)))\<rparr>"
proof -
  let ?n = "int (length (commandHistory s))"
  have n: "0 < ?n" using assms by simp
  have r: "0 \<le> historyIndex s" "historyIndex s \<le> ?n" using assms by simp_all
  have m: "max 0 (historyIndex s - 1) = ?n - 1" using assms n by simp
  have "nat (?n - 1) = length (commandHistory s) - 1" by simp
  then have l: "commandHistory s ! nat (?n - 1) = last (commandHistory s)"
    using last_conv_nth[OF assms(1)] by simp
  show iv: "inputValue (keydown_Arrow True s) = last (commandHistory s)"
    using up_in_range(3)[OF assms(1) r] m l by simp
  show ix: "historyIndex (keydown_Arrow True s) = ?n - 1"
    using up_in_range(2)[OF assms(1) r] m by simp
  have e: "keydown_Arrow True s = show_history (?n - 1) s"
    using up_step[OF assms(1), of "historyIndex s"] r m by simp
  have d: "keydown_Arrow False (show_history (?n - 1) s) =
      (show_history (?n - 1) s)\<lparr>historyIndex := ?n, inputValue := []\<rparr>"
    using down_past_newest[of "show_history (?n - 1) s"] assms(1)
    by (simp add: show_history_fields)
  show "keydown_Arrow False (keydown_Arrow True s) =
      s\<lparr>inputValue := [],
         selection := (length (last (commandHistory s)), length (last (commandHistory s)))\<rparr>"
    unfolding e d using assms(2) n l by (simp add: show_history_def Let_def)
qed

text \<open>
  C8. With a history that is not empty, the cursor fresh and the input line empty, Up
  shows the newest entry, and Down after it empties the line again and puts the cursor
  back to fresh, the history untouched. Up never leaves the entries: after it the cursor
  is an index of the history, at index 0 it stays at index 0 showing the oldest entry,
  and pressing Up at least as many times as there are entries ends at index 0. Down from
  the newest entry (or from fresh) empties the line and marks the cursor fresh. With an
  empty history both keys change nothing.
\<close>

theorem C8_history_navigation:
  "(commandHistory s \<noteq> [] \<and> historyIndex s = int (length (commandHistory s)) \<and> inputValue s = []
      \<longrightarrow> inputValue (keydown reg ArrowUp s) = last (commandHistory s) \<and>
          inputValue (keydown reg ArrowDown (keydown reg ArrowUp s)) = [] \<and>
          historyIndex (keydown reg ArrowDown (keydown reg ArrowUp s)) = historyIndex s \<and>
          commandHistory (keydown reg ArrowDown (keydown reg ArrowUp s)) = commandHistory s) \<and>
   (commandHistory s \<noteq> [] \<longrightarrow>
      0 \<le> historyIndex (keydown reg ArrowUp s) \<and>
      historyIndex (keydown reg ArrowUp s) < int (length (commandHistory s))) \<and>
   (commandHistory s \<noteq> [] \<and> historyIndex s = 0 \<longrightarrow>
      historyIndex (keydown reg ArrowUp s) = 0 \<and>
      inputValue (keydown reg ArrowUp s) = commandHistory s ! 0) \<and>
   (commandHistory s \<noteq> [] \<and> length (commandHistory s) \<le> m \<longrightarrow>
      historyIndex ((keydown reg ArrowUp ^^ m) s) = 0) \<and>
   (commandHistory s \<noteq> [] \<and> int (length (commandHistory s)) - 1 \<le> historyIndex s \<longrightarrow>
      inputValue (keydown reg ArrowDown s) = [] \<and>
      historyIndex (keydown reg ArrowDown s) = int (length (commandHistory s))) \<and>
   (commandHistory s = [] \<longrightarrow> keydown reg ArrowUp s = s \<and> keydown reg ArrowDown s = s)"
proof -
  have u: "keydown reg ArrowUp = keydown_Arrow True" by (simp add: fun_eq_iff)
  have 1: "commandHistory s \<noteq> [] \<and> historyIndex s = int (length (commandHistory s)) \<and> inputValue s = []
      \<longrightarrow> inputValue (keydown reg ArrowUp s) = last (commandHistory s) \<and>
          inputValue (keydown reg ArrowDown (keydown reg ArrowUp s)) = [] \<and>
          historyIndex (keydown reg ArrowDown (keydown reg ArrowUp s)) = historyIndex s \<and>
          commandHistory (keydown reg ArrowDown (keydown reg ArrowUp s)) = commandHistory s"
    using up_down_fresh[of s] by simp
  have 2: "commandHistory s \<noteq> [] \<longrightarrow>
      0 \<le> historyIndex (keydown reg ArrowUp s) \<and>
      historyIndex (keydown reg ArrowUp s) < int (length (commandHistory s))"
    using up_any[of s] by simp
  have 3: "commandHistory s \<noteq> [] \<and> historyIndex s = 0 \<longrightarrow>
      historyIndex (keydown reg ArrowUp s) = 0 \<and>
      inputValue (keydown reg ArrowUp s) = commandHistory s ! 0"
    using up_in_range(2,3)[of s] by simp
  have 4: "commandHistory s \<noteq> [] \<and> length (commandHistory s) \<le> m \<longrightarrow>
      historyIndex ((keydown reg ArrowUp ^^ m) s) = 0"
    unfolding u using up_stabilises(1)[of s m] by simp
  have 5: "commandHistory s \<noteq> [] \<and> int (length (commandHistory s)) - 1 \<le> historyIndex s \<longrightarrow>
      inputValue (keydown reg ArrowDown s) = [] \<and>
      historyIndex (keydown reg ArrowDown s) = int (length (commandHistory s))"
    using down_past_newest[of s] by simp
  have 6: "commandHistory s = [] \<longrightarrow> keydown reg ArrowUp s = s \<and> keydown reg ArrowDown s = s"
    by (simp add: arrow_empty)
  show ?thesis using 1 2 3 4 5 6 by (intro conjI)
qed

theorem C8_history_navigation_witness:
  "inputValue (keydown TERMINAL_COMMANDS ArrowUp nav_state) = js ''clear'' \<and>
   inputValue (keydown TERMINAL_COMMANDS ArrowDown (keydown TERMINAL_COMMANDS ArrowUp nav_state)) = [] \<and>
   historyIndex (keydown TERMINAL_COMMANDS ArrowDown (keydown TERMINAL_COMMANDS ArrowUp nav_state)) = 2 \<and>
   historyIndex ((keydown TERMINAL_COMMANDS ArrowUp ^^ 5) nav_state) = 0 \<and>
   inputValue (keydown TERMINAL_COMMANDS ArrowUp (nav_state\<lparr>historyIndex := 0\<rparr>)) = js ''help'' \<and>
   historyIndex (keydown TERMINAL_COMMANDS ArrowDown (nav_state\<lparr>historyIndex := 1\<rparr>)) = 2 \<and>
   keydown TERMINAL_COMMANDS ArrowUp controller_init = controller_init \<and>
   keydown TERMINAL_COMMANDS ArrowDown controller_init = controller_init"
proof -
  have n: "commandHistory nav_state = [js ''help'', js ''clear'']" "historyIndex nav_state = 2"
    "inputValue nav_state = []"
    by (simp_all add: nav_state_def controller_init_def)
  have i: "commandHistory controller_init = []" by (simp add: controller_init_def)
  note a = C8_history_navigation[of nav_state TERMINAL_COMMANDS 5]
  note b = C8_history_navigation[of "nav_state\<lparr>historyIndex := 0\<rparr>" TERMINAL_COMMANDS 5]
  note c = C8_history_navigation[of "nav_state\<lparr>historyIndex := 1\<rparr>" TERMINAL_COMMANDS 5]
  note d = C8_history_navigation[of controller_init TERMINAL_COMMANDS 5]
  have 1: "inputValue (keydown TERMINAL_COMMANDS ArrowUp nav_state) = js ''clear''"
    and 2: "inputValue (keydown TERMINAL_COMMANDS ArrowDown (keydown TERMINAL_COMMANDS ArrowUp nav_state)) = []"
    and 3: "historyIndex (keydown TERMINAL_COMMANDS ArrowDown (keydown TERMINAL_COMMANDS ArrowUp nav_state)) = 2"
    and 4: "historyIndex ((keydown TERMINAL_COMMANDS ArrowUp ^^ 5) nav_state) = 0"
    using a n by simp_all
  have 5: "inputValue (keydown TERMINAL_COMMANDS ArrowUp (nav_state\<lparr>historyIndex := 0\<rparr>)) = js ''help''"
    using b n by simp
  have 6: "historyIndex (keydown TERMINAL_COMMANDS ArrowDown (nav_state\<lparr>historyIndex := 1\<rparr>)) = 2"
    using c n by simp
  have 7: "keydown TERMINAL_COMMANDS ArrowUp controller_init = controller_init"
    and 8: "keydown TERMINAL_COMMANDS ArrowDown controller_init = controller_init"
    using d i by simp_all
  show ?thesis using 1 2 3 4 5 6 7 8 by (intro conjI)
qed

section \<open>Tab completion\<close>

lemma keydown_Tab_prefix:
  "keydown_Tab reg s =
    (let currentInput = trim (inputValue s);
         matchingCommands = filter (\<lambda>cmd. prefix currentInput cmd) (map fst reg)
     in if length matchingCommands = 1 then
          (let v = matchingCommands ! 0
           in s\<lparr>inputValue := v, selection := (length v, length v)\<rparr>)
        else if length matchingCommands > 1 then
          fold (\<lambda>cmd. appendOutput (js ''- '' @ cmd) Style_plain) matchingCommands
            (appendOutput (js ''Possible completions:'') Style_plain s)
        else s)"
  by (simp only: keydown_Tab_def startsWith_prefix)

text \<open>
  C9 (as amended). Tab completion works on the input text with surrounding whitespace
  trimmed, and on the registry keys that have the trimmed text as a prefix, in registry
  order. If exactly one key matches, the input line becomes that key and the cursor goes
  to its end. If several match, the line \<open>Possible completions:\<close> and then one line
  \<open>- key\<close> per candidate are printed, and the input line is not altered. If none
  matches, nothing is printed and nothing changes.
\<close>

theorem C9_tab_completion:
  "(filter (\<lambda>k. prefix (trim (inputValue s)) k) (map fst reg) = [k] \<longrightarrow>
      keydown reg Tab s = s\<lparr>inputValue := k, selection := (length k, length k)\<rparr>) \<and>
   (1 < length (filter (\<lambda>k. prefix (trim (inputValue s)) k) (map fst reg)) \<longrightarrow>
      keydown reg Tab s =
        s\<lparr>terminalOutput := terminalOutput s @
            (js ''Possible completions:'', Style_plain) #
            map (\<lambda>k. (js ''- '' @ k, Style_plain))
              (filter (\<lambda>k. prefix (trim (inputValue s)) k) (map fst reg))\<rparr>) \<and>
   (filter (\<lambda>k. prefix (trim (inputValue s)) k) (map fst reg) = [] \<longrightarrow>
      keydown reg Tab s = s)"
proof (intro conjI impI)
  assume a: "filter (\<lambda>k. prefix (trim (inputValue s)) k) (map fst reg) = [k]"
  show "keydown reg Tab s = s\<lparr>inputValue := k, selection := (length k, length k)\<rparr>"
    unfolding keydown.simps keydown_Tab_prefix Let_def a by simp
next
  assume a: "1 < length (filter (\<lambda>k. prefix (trim (inputValue s)) k) (map fst reg))"
  then have b: "length (filter (\<lambda>k. prefix (trim (inputValue s)) k) (map fst reg)) \<noteq> 1"
    by simp
  show "keydown reg Tab s =
        s\<lparr>terminalOutput := terminalOutput s @
            (js ''Possible completions:'', Style_plain) #
            map (\<lambda>k. (js ''- '' @ k, Style_plain))
              (filter (\<lambda>k. prefix (trim (inputValue s)) k) (map fst reg))\<rparr>"
    unfolding keydown.simps keydown_Tab_prefix Let_def fold_appendOutput
    using a b by (simp only: if_True if_False) (simp add: appendOutput_def)
next
  assume a: "filter (\<lambda>k. prefix (trim (inputValue s)) k) (map fst reg) = []"
  show "keydown reg Tab s = s"
    unfolding keydown.simps keydown_Tab_prefix Let_def a by simp
qed

theorem C9_tab_completion_witness:
  "keydown help_registry Tab (type_line (js ''helpm'') controller_init) =
     (type_line (js ''helpm'') controller_init)\<lparr>inputValue := js ''helpme'', selection := (6, 6)\<rparr> \<and>
   keydown help_registry Tab (type_line (js ''help'') controller_init) =
     (type_line (js ''help'') controller_init)\<lparr>terminalOutput :=
        [(js ''Possible completions:'', Style_plain), (js ''- help'', Style_plain),
         (js ''- helpme'', Style_plain)]\<rparr> \<and>
   keydown help_registry Tab (type_line (js ''hex'') controller_init) =
     type_line (js ''hex'') controller_init"
proof -
  let ?s1 = "type_line (js ''helpm'') controller_init"
  let ?s2 = "type_line (js ''help'') controller_init"
  let ?s3 = "type_line (js ''hex'') controller_init"
  have f1: "filter (\<lambda>k. prefix (trim (inputValue ?s1)) k) (map fst help_registry) = [js ''helpme'']"
    by (simp add: type_line_def trim_def is_ws_def help_registry_def js_def)
  have f2: "filter (\<lambda>k. prefix (trim (inputValue ?s2)) k) (map fst help_registry) =
      [js ''help'', js ''helpme'']"
    by (simp add: type_line_def trim_def is_ws_def help_registry_def js_def)
  have f3: "filter (\<lambda>k. prefix (trim (inputValue ?s3)) k) (map fst help_registry) = []"
    by (simp add: type_line_def trim_def is_ws_def help_registry_def js_def)
  have o: "terminalOutput ?s2 = []" by (simp add: type_line_def controller_init_def)
  have a: "keydown help_registry Tab ?s1 =
      ?s1\<lparr>inputValue := js ''helpme'', selection := (length (js ''helpme''), length (js ''helpme''))\<rparr>"
    using C9_tab_completion[of ?s1 help_registry "js ''helpme''"] f1 by blast
  have b: "keydown help_registry Tab ?s2 =
        ?s2\<lparr>terminalOutput := terminalOutput ?s2 @
            (js ''Possible completions:'', Style_plain) #
            map (\<lambda>k. (js ''- '' @ k, Style_plain))
              (filter (\<lambda>k. prefix (trim (inputValue ?s2)) k) (map fst help_registry))\<rparr>"
    using C9_tab_completion[of ?s2 help_registry "[]"] f2 by simp
  have c: "keydown help_registry Tab ?s3 = ?s3"
    using C9_tab_completion[of ?s3 help_registry "[]"] f3 by blast
  have l: "length (js ''helpme'') = 6" by (simp add: js_def)
  have j: "js ''- '' @ js ''help'' = js ''- help''" "js ''- '' @ js ''helpme'' = js ''- helpme''"
    by (simp_all add: js_def)
  show ?thesis using a b c l j o unfolding f2 by simp
qed

text \<open>
  The claim as it was stated takes the input text as it is. With the registry of the
  source and the input \<open>" hel"\<close> (a leading space) no key has that text as a prefix, so
  nothing should change; the handler trims first and completes the line to \<open>help\<close>.
\<close>

theorem C9_tab_completion_counterexample:
  "filter (\<lambda>k. prefix (js '' hel'') k) (map fst TERMINAL_COMMANDS) = [] \<and>
   inputValue (type_line (js '' hel'') controller_init) = js '' hel'' \<and>
   inputValue (keydown TERMINAL_COMMANDS Tab (type_line (js '' hel'') controller_init)) = js ''help'' \<and>
   keydown TERMINAL_COMMANDS Tab (type_line (js '' hel'') controller_init) \<noteq>
     type_line (js '' hel'') controller_init"
proof -
  have 1: "filter (\<lambda>k. prefix (js '' hel'') k) (map fst TERMINAL_COMMANDS) = []"
    by (simp add: TERMINAL_COMMANDS_def js_def)
  have 2: "inputValue (type_line (js '' hel'') controller_init) = js '' hel''"
    by (simp add: type_line_def)
  have 3: "inputValue (keydown TERMINAL_COMMANDS Tab (type_line (js '' hel'') controller_init)) = js ''help''"
    by (simp add: keydown_Tab_def type_line_def trim_def is_ws_def TERMINAL_COMMANDS_def js_def
          startsWith_def)
  have "js '' hel'' \<noteq> js ''help''" by (simp add: js_def)
  with 2 3 have 4: "keydown TERMINAL_COMMANDS Tab (type_line (js '' hel'') controller_init) \<noteq>
     type_line (js '' hel'') controller_init"
    by metis
  show ?thesis using 1 2 3 4 by (intro conjI)
qed

section \<open>Submitting a blank line\<close>

lemma trim_Nil_iff: "trim l = [] \<longleftrightarrow> (\<forall>c\<in>set l. is_ws c)"
proof
  assume "trim l = []"
  then have "dropWhile is_ws (rev (dropWhile is_ws l)) = []" by (simp add: trim_def)
  then have "\<forall>c\<in>set (rev (dropWhile is_ws l)). is_ws c"
    by (rule dropWhile_eq_Nil_conv[THEN iffD1])
  then have all: "\<forall>c\<in>set (dropWhile is_ws l). is_ws c" by (simp only: set_rev)
  have "dropWhile is_ws l = []"
  proof (rule ccontr)
    assume ne: "dropWhile is_ws l \<noteq> []"
    then have "\<not> is_ws (hd (dropWhile is_ws l))" by (rule hd_dropWhile)
    moreover have "hd (dropWhile is_ws l) \<in> set (dropWhile is_ws l)" using ne by (rule hd_in_set)
    ultimately show False using all by blast
  qed
  then show "\<forall>c\<in>set l. is_ws c" by (rule dropWhile_eq_Nil_conv[THEN iffD1])
next
  assume "\<forall>c\<in>set l. is_ws c"
  then have d: "dropWhile is_ws l = []" by (rule dropWhile_eq_Nil_conv[THEN iffD2])
  show "trim l = []" unfolding trim_def d by simp
qed

text \<open>
  C10. When the input line is empty or holds only whitespace, Enter changes nothing in
  the Controller: no line is echoed or printed, no command is dispatched, no
  \<open>Unknown command\<close> message appears, nothing is sent to the worker, and the history
  and the browse cursor are as before.
\<close>

theorem C10_blank_submit:
  "(\<forall>c\<in>set (inputValue s). is_ws c) \<longrightarrow> keydown reg Enter s = s"
  by (simp add: keydown_Enter_def trim_Nil_iff[symmetric])

theorem C10_blank_submit_witness:
  "keydown TERMINAL_COMMANDS Enter (type_line [] controller_init) = type_line [] controller_init \<and>
   keydown TERMINAL_COMMANDS Enter (type_line (js ''   '' @ [TAB]) controller_init) =
     type_line (js ''   '' @ [TAB]) controller_init"
proof -
  have a: "\<forall>c\<in>set (inputValue (type_line [] controller_init)). is_ws c"
    by (simp add: type_line_def)
  have b: "\<forall>c\<in>set (inputValue (type_line (js ''   '' @ [TAB]) controller_init)). is_ws c"
    by (simp add: type_line_def js_def TAB_def is_ws_def)
  show ?thesis
    using C10_blank_submit[of "type_line [] controller_init" TERMINAL_COMMANDS]
      C10_blank_submit[of "type_line (js ''   '' @ [TAB]) controller_init" TERMINAL_COMMANDS] a b
    by blast
qed

section \<open>The input field during a run\<close>

lemma c6_entry: "find_command TERMINAL_COMMANDS (js ''python just_watch_search.py Dune'') =
   Some (js ''python just_watch_search.py'',
         \<lparr>description = js ''Run the JustWatch search script'', action = RunJustWatchSearch\<rparr>)"
  by (simp add: TERMINAL_COMMANDS_def startsWith_def js_def)

lemma c6_args:
  "splitArgs (trim (replace_first (js ''python just_watch_search.py'')
      (js ''python just_watch_search.py Dune''))) = [js ''Dune'']"
  by code_simp

lemma c6_trim:
  "trim (js ''python just_watch_search.py Dune'') = js ''python just_watch_search.py Dune'' \<and>
   js ''python just_watch_search.py Dune'' \<noteq> []"
  by (simp add: trim_def is_ws_def js_def)

lemma c6_ready: "worker ready_state \<and> workerReady ready_state \<and> sent ready_state = [Msg_init]"
  by (simp add: ready_state_def controller_init_def appendOutput_def)

lemma c6_begin:
  "dispatch_begin TERMINAL_COMMANDS (js ''python just_watch_search.py Dune'')
        (js ''python just_watch_search.py'',
         \<lparr>description = js ''Run the JustWatch search script'', action = RunJustWatchSearch\<rparr>) s
   = (if \<not> worker s \<or> \<not> workerReady s then
        s\<lparr>commandHistory := commandHistory s @ [js ''python just_watch_search.py Dune''],
           historyIndex := int (length (commandHistory s)) + 1,
           terminalOutput := terminalOutput s @
             [(js ''$ '' @ js ''python just_watch_search.py Dune'', Style_info),
              (js ''Python environment not ready yet. Please wait...'', Style_error)],
           inputValue := [], inputDisabled := True\<rparr>
      else
        s\<lparr>commandHistory := commandHistory s @ [js ''python just_watch_search.py Dune''],
           historyIndex := int (length (commandHistory s)) + 1,
           terminalOutput := terminalOutput s @
             [(js ''$ '' @ js ''python just_watch_search.py Dune'', Style_info)],
           inputValue := [], inputDisabled := True,
           statusState := js ''loading'', statusText := js ''Running command...'',
           sent := sent s @ [Msg_run [js ''Dune'']]\<rparr>)"
  by (simp add: dispatch_begin_def c6_args Let_def runJustWatchSearch_def appendOutput_def
        updateStatus_def add.commute)

text \<open>
  C6 does not hold of the code. The input field is disabled when the action is called,
  but \<open>runJustWatchSearch\<close> only posts the \<open>run\<close> message and returns, so the statement
  after the \<open>await\<close> enables the field again within the same event: with the worker
  ready, after Enter on \<open>python just_watch_search.py Dune\<close> the request has been sent, the
  status says \<open>Running command...\<close>, no \<open>complete\<close> has arrived, and the input field is
  enabled.
\<close>

theorem C6_input_enabled_while_running:
  "inputDisabled
     (dispatch_begin TERMINAL_COMMANDS (js ''python just_watch_search.py Dune'')
        (js ''python just_watch_search.py'',
         \<lparr>description = js ''Run the JustWatch search script'', action = RunJustWatchSearch\<rparr>)
        ready_state) = True \<and>
   sent (keydown TERMINAL_COMMANDS Enter (type_line (js ''python just_watch_search.py Dune'') ready_state))
     = [Msg_init, Msg_run [js ''Dune'']] \<and>
   statusText (keydown TERMINAL_COMMANDS Enter (type_line (js ''python just_watch_search.py Dune'') ready_state))
     = js ''Running command...'' \<and>
   inputDisabled (keydown TERMINAL_COMMANDS Enter (type_line (js ''python just_watch_search.py Dune'') ready_state))
     = False"
proof -
  let ?c = "js ''python just_watch_search.py Dune''"
  let ?s = "type_line ?c ready_state"
  have r: "worker ?s" "workerReady ?s" "sent ?s = [Msg_init]" "inputValue ?s = ?c"
    using c6_ready by (simp_all add: type_line_def)
  have k: "keydown TERMINAL_COMMANDS Enter ?s =
      (dispatch_end (dispatch_begin TERMINAL_COMMANDS ?c
        (js ''python just_watch_search.py'',
         \<lparr>description = js ''Run the JustWatch search script'', action = RunJustWatchSearch\<rparr>) ?s))
      \<lparr>inputValue := []\<rparr>"
    using c6_trim by (simp add: keydown_Enter_def r(4) runTerminalCommand_def c6_entry Let_def)
  show ?thesis
    unfolding k c6_begin using r c6_ready by (simp add: dispatch_end_def)
qed

section \<open>The run queue executes one run at a time, in arrival order\<close>

lemma in_order_Cons:
  "in_order (p # tr) \<longleftrightarrow>
     (\<forall>p'\<in>set tr. fst p \<le> fst p' \<and> (is_complete (snd p) \<longrightarrow> fst p < fst p')) \<and> in_order tr"
  by (cases p) (simp add: list_all_iff case_prod_unfold)

lemma in_order_append:
  "in_order (tr @ tr') \<longleftrightarrow>
     in_order tr \<and> in_order tr' \<and>
     (\<forall>p\<in>set tr. \<forall>p'\<in>set tr'. fst p \<le> fst p' \<and> (is_complete (snd p) \<longrightarrow> fst p < fst p'))"
proof (induction tr)
  case Nil
  show ?case by simp
next
  case (Cons p tr)
  show ?case
    unfolding append_Cons in_order_Cons Cons.IH by (simp add: ball_Un) blast
qed

lemma in_order_nth:
  "in_order tr \<Longrightarrow> i < j \<Longrightarrow> j < length tr \<Longrightarrow>
   fst (tr ! i) \<le> fst (tr ! j) \<and> (is_complete (snd (tr ! i)) \<longrightarrow> fst (tr ! i) < fst (tr ! j))"
proof (induction tr arbitrary: i j)
  case Nil
  then show ?case by simp
next
  case (Cons p tr)
  obtain r m where p: "p = (r, m)" by (cases p)
  obtain j' where j: "j = Suc j'" using Cons.prems(2) by (cases j) auto
  have jl: "j' < length tr" using Cons.prems(3) j by simp
  show ?case
  proof (cases i)
    case 0
    have "tr ! j' \<in> set tr" using jl by simp
    then show ?thesis using Cons.prems(1) p 0 j by (auto simp: list_all_iff)
  next
    case (Suc i')
    have "in_order tr" using Cons.prems(1) p by simp
    from Cons.IH[OF this, of i' j'] Cons.prems(2) jl Suc j show ?thesis by simp
  qed
qed

lemma emission_msgs_not_complete: "m \<in> set (emission_msgs e) \<Longrightarrow> \<not> is_complete m"
  by (cases e) (auto simp: emission_msgs_def split: if_splits)

lemma in_order_same_run:
  "\<forall>m\<in>set ms. \<not> is_complete m \<Longrightarrow> in_order (map (Pair rid) ms)"
  by (induction ms) (auto simp: list_all_iff)

lemma queue_inv_init: "queue_inv bridge_init"
  by (simp add: queue_inv_def bridge_init_def)

lemma executing_single:
  assumes "queue_inv b" "rid \<in> fst ` set (executing b)"
  shows "\<exists>as. executing b = [(rid, as)]"
proof -
  have "length (executing b) \<le> 1" using assms(1) by (simp add: queue_inv_def)
  then obtain e where e: "executing b = [e]"
    using assms(2) by (cases "executing b") auto
  then show ?thesis using assms(2) by (cases e) auto
qed

lemma queue_inv_receive_run:
  assumes "queue_inv b"
  shows "queue_inv (bridge_step b (Receive (Msg_run as)))"
proof (cases "runningCommand b")
  case True
  then have s: "bridge_step b (Receive (Msg_run as)) =
      b\<lparr>commandQueue := commandQueue b @ [(arrivals b, as)], arrivals := arrivals b + 1\<rparr>"
    by (simp add: processCommandQueue_def)
  show ?thesis unfolding s using assms True
    by (auto simp: queue_inv_def sorted_wrt_append less_Suc_eq)
next
  case False
  with assms have q: "commandQueue b = []" "executing b = []"
    by (auto simp: queue_inv_def)
  have s: "bridge_step b (Receive (Msg_run as)) =
      b\<lparr>commandQueue := [], arrivals := arrivals b + 1, runningCommand := True,
         executing := [(arrivals b, as)]\<rparr>"
    using False q by (simp add: processCommandQueue_def)
  show ?thesis unfolding s using assms q
    by (auto simp: queue_inv_def less_Suc_eq)
qed

lemma queue_inv_receive:
  assumes "queue_inv b"
  shows "queue_inv (bridge_step b (Receive m))"
proof (cases m)
  case (Msg_run as)
  show ?thesis unfolding Msg_run using assms by (rule queue_inv_receive_run)
qed (simp_all add: assms)

lemma queue_inv_emits:
  assumes "queue_inv b"
  shows "queue_inv (bridge_step b (Emits rid e))"
proof (cases "rid \<in> fst ` set (executing b)")
  case False
  then show ?thesis using assms by simp
next
  case True
  from executing_single[OF assms True] obtain as where ex: "executing b = [(rid, as)]" ..
  have s: "bridge_step b (Emits rid e) =
      b\<lparr>posted := posted b @ map (Pair rid) (emission_msgs e)\<rparr>"
    using True by simp
  have nc: "\<forall>m\<in>set (emission_msgs e). \<not> is_complete m"
    using emission_msgs_not_complete by blast
  have io: "in_order (posted b @ map (Pair rid) (emission_msgs e))"
    unfolding in_order_append using assms ex nc
    by (auto simp: queue_inv_def in_order_same_run)
  have rest: "\<forall>p\<in>set (map (Pair rid) (emission_msgs e)). fst p < arrivals b \<and>
        (\<forall>e\<in>set (executing b). fst p \<le> fst e \<and> (is_complete (snd p) \<longrightarrow> fst p < fst e)) \<and>
        (\<forall>e\<in>set (commandQueue b). fst p < fst e)"
    using assms ex nc by (auto simp: queue_inv_def)
  show ?thesis unfolding s using assms io rest
    by (simp add: queue_inv_def ball_Un)
qed

lemma queue_inv_returns:
  assumes "queue_inv b"
  shows "queue_inv (bridge_step b (Returns rid c))"
proof (cases "rid \<in> fst ` set (executing b)")
  case False
  then show ?thesis using assms by simp
next
  case True
  from executing_single[OF assms True] obtain as where ex: "executing b = [(rid, as)]" ..
  have io: "in_order (posted b @ [(rid, W_complete c)])"
    unfolding in_order_append using assms ex by (auto simp: queue_inv_def)
  have ra: "rid < arrivals b" using assms ex by (auto simp: queue_inv_def)
  show ?thesis
  proof (cases "commandQueue b")
    case Nil
    have s: "bridge_step b (Returns rid c) =
      b\<lparr>posted := posted b @ [(rid, W_complete c)], executing := [], runningCommand := False\<rparr>"
      using True ex Nil by (simp add: run_returns_def)
    show ?thesis unfolding s using assms io ra Nil
      by (auto simp: queue_inv_def)
  next
    case (Cons q rest)
    have s: "bridge_step b (Returns rid c) =
      b\<lparr>posted := posted b @ [(rid, W_complete c)], executing := [q], runningCommand := True,
         commandQueue := rest\<rparr>"
      using True ex Cons by (simp add: run_returns_def processCommandQueue_def)
    have so: "rid < fst q" "\<forall>e\<in>set rest. rid < fst e" "\<forall>e\<in>set rest. fst q < fst e"
      "sorted_wrt (<) (map fst rest)"
      using assms ex Cons by (auto simp: queue_inv_def)
    have old: "\<forall>p\<in>set (posted b). fst p < arrivals b \<and> fst p < fst q \<and>
        (\<forall>e\<in>set rest. fst p < fst e)"
      using assms Cons by (auto simp: queue_inv_def)
    have qa: "fst q < arrivals b" "\<forall>e\<in>set rest. fst e < arrivals b"
      using assms Cons by (auto simp: queue_inv_def)
    show ?thesis unfolding s using io ra so old qa
      by (auto simp: queue_inv_def)
  qed
qed

lemma queue_inv_step: "queue_inv b \<Longrightarrow> queue_inv (bridge_step b ev)"
  by (cases ev) (simp_all only: queue_inv_receive queue_inv_emits queue_inv_returns)

lemma queue_inv_foldl: "queue_inv b \<Longrightarrow> queue_inv (foldl bridge_step b evs)"
  by (induction evs arbitrary: b) (simp_all add: queue_inv_step)

lemma queue_inv_run: "queue_inv (bridge_run evs)"
  by (simp add: bridge_run_def queue_inv_foldl queue_inv_init)

lemma receive_run_while_busy:
  assumes "queue_inv b" "executing b \<noteq> []"
  shows "bridge_step b (Receive (Msg_run as)) =
    b\<lparr>commandQueue := commandQueue b @ [(arrivals b, as)], arrivals := arrivals b + 1\<rparr>"
proof -
  have "runningCommand b" using assms by (simp add: queue_inv_def)
  then show ?thesis by (simp add: processCommandQueue_def)
qed

lemma receive_run_while_idle:
  assumes "queue_inv b" "executing b = []"
  shows "bridge_step b (Receive (Msg_run as)) =
    b\<lparr>commandQueue := [], arrivals := arrivals b + 1, runningCommand := True,
       executing := [(arrivals b, as)]\<rparr>"
proof -
  have "\<not> runningCommand b" "commandQueue b = []" using assms by (auto simp: queue_inv_def)
  then show ?thesis using assms(2) by (simp add: processCommandQueue_def)
qed

lemma returns_starts_next:
  assumes "executing b = [(rid, as)]" "commandQueue b = q # rest"
  shows "bridge_step b (Returns rid c) =
    b\<lparr>posted := posted b @ [(rid, W_complete c)], executing := [q], runningCommand := True,
       commandQueue := rest\<rparr>"
  using assms by (simp add: run_returns_def processCommandQueue_def)

lemma complete_is_last_of_its_run:
  assumes io: "in_order tr"
    and i: "i < length tr" and j: "j < length tr"
    and c: "is_complete (snd (tr ! i))"
  shows "fst (tr ! j) = fst (tr ! i) \<and> j \<noteq> i \<longrightarrow> j < i"
    and "fst (tr ! i) < fst (tr ! j) \<longrightarrow> i < j"
proof -
  show "fst (tr ! j) = fst (tr ! i) \<and> j \<noteq> i \<longrightarrow> j < i"
  proof (intro impI, rule ccontr)
    assume a: "fst (tr ! j) = fst (tr ! i) \<and> j \<noteq> i" and "\<not> j < i"
    then have "i < j" by simp
    from in_order_nth[OF io this j] c a show False by simp
  qed
  show "fst (tr ! i) < fst (tr ! j) \<longrightarrow> i < j"
  proof (intro impI, rule ccontr)
    assume a: "fst (tr ! i) < fst (tr ! j)" and n: "\<not> i < j"
    then have "j \<noteq> i" by auto
    with n have "j < i" by simp
    from in_order_nth[OF io this i] a show False by simp
  qed
qed

text \<open>
  C3. In every state the worker reaches, whatever the order of arriving requests,
  prints and completions: at most one call of \<open>run\<close> is executing, and
  \<open>runningCommand\<close> is set exactly while one is. A request that arrives while a run is
  executing is only appended to the queue; one that arrives while none is executing is
  started at once. When the executing run completes while requests wait, the oldest
  waiting request is started and the others keep waiting. The executing run and the
  waiting requests are in order of arrival. The messages posted are in order of their
  runs, and after the \<open>complete\<close> of a run only later runs post: every other message of
  a run comes before its \<open>complete\<close>, and every message of a later run after it.
\<close>

theorem C3_run_queue:
  "length (executing (bridge_run evs)) \<le> 1 \<and>
   (runningCommand (bridge_run evs) \<longleftrightarrow> executing (bridge_run evs) \<noteq> []) \<and>
   (executing (bridge_run evs) \<noteq> [] \<longrightarrow>
      bridge_step (bridge_run evs) (Receive (Msg_run as)) =
        (bridge_run evs)\<lparr>commandQueue :=
            commandQueue (bridge_run evs) @ [(arrivals (bridge_run evs), as)],
          arrivals := arrivals (bridge_run evs) + 1\<rparr>) \<and>
   (executing (bridge_run evs) = [] \<longrightarrow>
      bridge_step (bridge_run evs) (Receive (Msg_run as)) =
        (bridge_run evs)\<lparr>commandQueue := [], arrivals := arrivals (bridge_run evs) + 1,
          runningCommand := True, executing := [(arrivals (bridge_run evs), as)]\<rparr>) \<and>
   (executing (bridge_run evs) = [(rid, as')] \<and> commandQueue (bridge_run evs) = q # rest \<longrightarrow>
      bridge_step (bridge_run evs) (Returns rid c) =
        (bridge_run evs)\<lparr>posted := posted (bridge_run evs) @ [(rid, W_complete c)],
          executing := [q], runningCommand := True, commandQueue := rest\<rparr>) \<and>
   sorted_wrt (<) (map fst (executing (bridge_run evs) @ commandQueue (bridge_run evs))) \<and>
   (i < j \<and> j < length (posted (bridge_run evs)) \<longrightarrow>
      fst (posted (bridge_run evs) ! i) \<le> fst (posted (bridge_run evs) ! j) \<and>
      (is_complete (snd (posted (bridge_run evs) ! i)) \<longrightarrow>
         fst (posted (bridge_run evs) ! i) < fst (posted (bridge_run evs) ! j))) \<and>
   (i < length (posted (bridge_run evs)) \<and> j < length (posted (bridge_run evs)) \<and>
    is_complete (snd (posted (bridge_run evs) ! i)) \<longrightarrow>
      (fst (posted (bridge_run evs) ! j) = fst (posted (bridge_run evs) ! i) \<and> j \<noteq> i
         \<longrightarrow> j < i) \<and>
      (fst (posted (bridge_run evs) ! i) < fst (posted (bridge_run evs) ! j) \<longrightarrow> i < j))"
proof -
  let ?b = "bridge_run evs"
  have inv: "queue_inv ?b" by (rule queue_inv_run)
  have io: "in_order (posted ?b)" using inv by (simp add: queue_inv_def)
  have 1: "length (executing ?b) \<le> 1" using inv by (simp add: queue_inv_def)
  have 2: "runningCommand ?b \<longleftrightarrow> executing ?b \<noteq> []" using inv by (simp add: queue_inv_def)
  have 3: "executing ?b \<noteq> [] \<longrightarrow>
      bridge_step ?b (Receive (Msg_run as)) =
        ?b\<lparr>commandQueue := commandQueue ?b @ [(arrivals ?b, as)],
          arrivals := arrivals ?b + 1\<rparr>"
    using receive_run_while_busy[OF inv] by blast
  have 4: "executing ?b = [] \<longrightarrow>
      bridge_step ?b (Receive (Msg_run as)) =
        ?b\<lparr>commandQueue := [], arrivals := arrivals ?b + 1,
          runningCommand := True, executing := [(arrivals ?b, as)]\<rparr>"
    using receive_run_while_idle[OF inv] by blast
  have 5: "executing ?b = [(rid, as')] \<and> commandQueue ?b = q # rest \<longrightarrow>
      bridge_step ?b (Returns rid c) =
        ?b\<lparr>posted := posted ?b @ [(rid, W_complete c)],
          executing := [q], runningCommand := True, commandQueue := rest\<rparr>"
    using returns_starts_next[of ?b rid as' q rest c] by blast
  have 6: "sorted_wrt (<) (map fst (executing ?b @ commandQueue ?b))"
    using inv by (simp add: queue_inv_def)
  have 7: "i < j \<and> j < length (posted ?b) \<longrightarrow>
      fst (posted ?b ! i) \<le> fst (posted ?b ! j) \<and>
      (is_complete (snd (posted ?b ! i)) \<longrightarrow> fst (posted ?b ! i) < fst (posted ?b ! j))"
    using in_order_nth[OF io, of i j] by blast
  have 8: "i < length (posted ?b) \<and> j < length (posted ?b) \<and>
    is_complete (snd (posted ?b ! i)) \<longrightarrow>
      (fst (posted ?b ! j) = fst (posted ?b ! i) \<and> j \<noteq> i \<longrightarrow> j < i) \<and>
      (fst (posted ?b ! i) < fst (posted ?b ! j) \<longrightarrow> i < j)"
    using complete_is_last_of_its_run[OF io, of i j] by blast
  show ?thesis using 1 2 3 4 5 6 7 8 by (intro conjI)
qed

lemma bridge_run_two_requests:
  "bridge_run two_requests =
     \<lparr>runningCommand = True, commandQueue = [(1, [js ''b''])], executing = [(0, [js ''a''])],
      arrivals = 2, posted = []\<rparr>"
  by (simp add: bridge_run_def two_requests_def bridge_init_def processCommandQueue_def)

lemma bridge_run_two_runs:
  "bridge_run two_runs =
     \<lparr>runningCommand = True, commandQueue = [], executing = [(1, [js ''b''])],
      arrivals = 2,
      posted = [(0, W_output (js ''x'')), (0, W_complete (Complete_ok (PyInt 0))),
                (1, W_output (js ''y''))]\<rparr>"
  by (simp add: bridge_run_def two_runs_def two_requests_def bridge_init_def
        processCommandQueue_def run_returns_def emission_msgs_def)

theorem C3_run_queue_witness:
  "bridge_step (bridge_run two_requests) (Receive (Msg_run [js ''c''])) =
     \<lparr>runningCommand = True, commandQueue = [(1, [js ''b'']), (2, [js ''c''])],
      executing = [(0, [js ''a''])], arrivals = 3, posted = []\<rparr> \<and>
   bridge_step (bridge_run two_requests) (Returns 0 (Complete_failed (js ''boom''))) =
     \<lparr>runningCommand = True, commandQueue = [], executing = [(1, [js ''b''])],
      arrivals = 2, posted = [(0, W_complete (Complete_failed (js ''boom'')))]\<rparr> \<and>
   bridge_step (bridge_run []) (Receive (Msg_run [js ''a''])) =
     \<lparr>runningCommand = True, commandQueue = [], executing = [(0, [js ''a''])],
      arrivals = 1, posted = []\<rparr> \<and>
   posted (bridge_run two_runs) =
     [(0, W_output (js ''x'')), (0, W_complete (Complete_ok (PyInt 0))), (1, W_output (js ''y''))] \<and>
   fst (posted (bridge_run two_runs) ! 1) < fst (posted (bridge_run two_runs) ! 2)"
proof -
  have e: "bridge_run [] = bridge_init" by (simp add: bridge_run_def)
  have h1: "executing (bridge_run two_requests) \<noteq> []"
    by (simp add: bridge_run_two_requests)
  have h2: "executing (bridge_run two_requests) = [(0, [js ''a''])] \<and>
      commandQueue (bridge_run two_requests) = (1, [js ''b'']) # []"
    by (simp add: bridge_run_two_requests)
  have h3: "executing (bridge_run []) = []" by (simp add: e bridge_init_def)
  have h4: "(1::nat) < 2 \<and> 2 < length (posted (bridge_run two_runs)) \<and>
      is_complete (snd (posted (bridge_run two_runs) ! 1))"
    by (simp add: bridge_run_two_runs)
  have a: "bridge_step (bridge_run two_requests) (Receive (Msg_run [js ''c''])) =
        (bridge_run two_requests)\<lparr>commandQueue :=
            commandQueue (bridge_run two_requests) @ [(arrivals (bridge_run two_requests), [js ''c''])],
          arrivals := arrivals (bridge_run two_requests) + 1\<rparr>"
    and b: "bridge_step (bridge_run two_requests) (Returns 0 (Complete_failed (js ''boom''))) =
        (bridge_run two_requests)\<lparr>posted := posted (bridge_run two_requests) @
              [(0, W_complete (Complete_failed (js ''boom'')))],
          executing := [(1, [js ''b''])], runningCommand := True, commandQueue := []\<rparr>"
    using C3_run_queue[of two_requests "[js ''c'']" 0 "[js ''a'']" "(1, [js ''b''])" "[]"
        "Complete_failed (js ''boom'')" 0 0] h1 h2
    by blast+
  have c: "bridge_step (bridge_run []) (Receive (Msg_run [js ''a''])) =
        (bridge_run [])\<lparr>commandQueue := [], arrivals := arrivals (bridge_run []) + 1,
          runningCommand := True, executing := [(arrivals (bridge_run []), [js ''a''])]\<rparr>"
    using C3_run_queue[of "[]" "[js ''a'']" 0 "[]" "(0, [])" "[]" "Complete_ok PyNone" 0 0] h3
    by blast
  have d: "fst (posted (bridge_run two_runs) ! 1) < fst (posted (bridge_run two_runs) ! 2)"
    using C3_run_queue[of two_runs "[]" 0 "[]" "(0, [])" "[]" "Complete_ok PyNone" 1 2] h4
    by blast
  show ?thesis
    using a b c d by (simp add: bridge_run_two_requests bridge_run_two_runs e bridge_init_def)
qed

section \<open>What a run posts\<close>

lemma setup_script_ok:
  "setup_script None p =
    (p\<lparr>saved_print := Some (builtins_print p), saved_input := Some (builtins_input p),
       saved_stdout := Some (sys_stdout p), saved_stderr := Some (sys_stderr p),
       builtins_print := Patched, builtins_input := Patched,
       sys_stdout := Patched, sys_stderr := Patched\<rparr>, None)"
  by (simp add: setup_script_def setup_stmts_def)

lemma py_emit_patched:
  "builtins_print p = Patched \<Longrightarrow> builtins_input p = Patched \<Longrightarrow> py_emit p e = emission_msgs e"
  by (cases e) (simp_all add: py_print_def emission_msgs_def)

lemma emitted_patched:
  "builtins_print p = Patched \<Longrightarrow> builtins_input p = Patched \<Longrightarrow>
   concat (map (py_emit p) es) = concat (map emission_msgs es)"
  by (induction es) (simp_all add: py_emit_patched)

lemma stderr_patched:
  "sys_stderr p = Patched \<Longrightarrow> concat (map (py_stderr_write p) tb) = map W_output tb"
  by (induction tb) (simp_all add: py_stderr_write_def)

lemma restore_stmts_saved:
  "saved_print p = Some v1 \<Longrightarrow> saved_input p = Some v2 \<Longrightarrow> saved_stdout p = Some v3 \<Longrightarrow>
   saved_stderr p = Some v4 \<Longrightarrow>
   restore_stmts p =
     (p\<lparr>builtins_print := v1, builtins_input := v2, sys_stdout := v3, sys_stderr := v4\<rparr>, True)"
  by (simp add: restore_stmts_def)

text \<open>The state in which the second Python call starts when the first one has succeeded.\<close>

lemma run_body_after_setup:
  assumes "setup_fault env = None"
  shows "run_body env as b =
    (let p2 = (pyodide b)\<lparr>js_module := True,
                 saved_print := Some (builtins_print (pyodide b)),
                 saved_input := Some (builtins_input (pyodide b)),
                 saved_stdout := Some (sys_stdout (pyodide b)),
                 saved_stderr := Some (sys_stderr (pyodide b)),
                 builtins_print := Patched, builtins_input := Patched,
                 sys_stdout := Patched, sys_stderr := Patched\<rparr>;
         b1 = b\<lparr>activeStdinHandler := True\<rparr>
     in case main_script env p2 of
          (p3, outs, Inl msg) \<Rightarrow> run_catch msg p3 (b1\<lparr>outbox := outbox b1 @ outs\<rparr>)
        | (p3, outs, Inr code) \<Rightarrow>
            (b1\<lparr>outbox := outbox b1 @ outs, activeStdinHandler := False,
                 pyodide := p3\<lparr>js_module := False\<rparr>\<rparr>,
             Complete_ok code))"
  using assms by (simp add: run_body_def setup_script_ok Let_def)

lemma main_script_handled:
  assumes "import_fault env = None"
    and "builtins_print p = Patched" "builtins_input p = Patched" "sys_stderr p = Patched"
    and "saved_print p = Some v1" "saved_input p = Some v2" "saved_stdout p = Some v3"
      "saved_stderr p = Some v4"
    and "exit_code_of p (ending env) = (houts, Inr code)"
  shows "main_script env p =
    (p\<lparr>builtins_print := v1, builtins_input := v2, sys_stdout := v3, sys_stderr := v4\<rparr>,
     concat (map emission_msgs (emitted env)) @ houts, Inr code)"
  using assms
  by (simp add: main_script_def emitted_patched restore_stmts_saved Let_def)

lemma main_script_unhandled:
  assumes "import_fault env = None"
    and "builtins_print p = Patched" "builtins_input p = Patched"
    and "exit_code_of p (ending env) = (houts, Inl msg)"
  shows "main_script env p = (p, concat (map emission_msgs (emitted env)) @ houts, Inl msg)"
  using assms by (simp add: main_script_def emitted_patched Let_def)

lemma run_result_handled:
  assumes "setup_fault env = None" "import_fault env = None"
    and "\<And>p. builtins_print p = Patched \<Longrightarrow> sys_stderr p = Patched \<Longrightarrow>
           exit_code_of p (ending env) = (houts, Inr code)"
  shows "snd (run_body env as b) = Complete_ok code"
    and "outbox (run env as b) =
      outbox b @ concat (map emission_msgs (emitted env)) @ houts @ [W_complete (Complete_ok code)]"
proof -
  let ?p2 = "(pyodide b)\<lparr>js_module := True,
                 saved_print := Some (builtins_print (pyodide b)),
                 saved_input := Some (builtins_input (pyodide b)),
                 saved_stdout := Some (sys_stdout (pyodide b)),
                 saved_stderr := Some (sys_stderr (pyodide b)),
                 builtins_print := Patched, builtins_input := Patched,
                 sys_stdout := Patched, sys_stderr := Patched\<rparr>"
  have e: "exit_code_of ?p2 (ending env) = (houts, Inr code)" by (rule assms(3)) simp_all
  have m: "main_script env ?p2 =
    (?p2\<lparr>builtins_print := builtins_print (pyodide b), builtins_input := builtins_input (pyodide b),
         sys_stdout := sys_stdout (pyodide b), sys_stderr := sys_stderr (pyodide b)\<rparr>,
     concat (map emission_msgs (emitted env)) @ houts, Inr code)"
    by (rule main_script_handled[OF assms(2) _ _ _ _ _ _ _ e]) simp_all
  show "snd (run_body env as b) = Complete_ok code"
    unfolding run_body_after_setup[OF assms(1)] Let_def m by simp
  show "outbox (run env as b) =
      outbox b @ concat (map emission_msgs (emitted env)) @ houts @ [W_complete (Complete_ok code)]"
    unfolding run_def run_body_after_setup[OF assms(1)] Let_def m by simp
qed

lemma run_result_unhandled:
  assumes "setup_fault env = None" "import_fault env = None"
    and "ending env = Some (OtherBaseException msg)"
  shows "snd (run_body env as b) = Complete_failed msg"
    and "outbox (run env as b) =
      outbox b @ concat (map emission_msgs (emitted env)) @ [W_complete (Complete_failed msg)]"
proof -
  let ?p2 = "(pyodide b)\<lparr>js_module := True,
                 saved_print := Some (builtins_print (pyodide b)),
                 saved_input := Some (builtins_input (pyodide b)),
                 saved_stdout := Some (sys_stdout (pyodide b)),
                 saved_stderr := Some (sys_stderr (pyodide b)),
                 builtins_print := Patched, builtins_input := Patched,
                 sys_stdout := Patched, sys_stderr := Patched\<rparr>"
  have e: "exit_code_of ?p2 (ending env) = ([], Inl msg)" using assms(3) by simp
  have m: "main_script env ?p2 = (?p2, concat (map emission_msgs (emitted env)) @ [], Inl msg)"
    by (rule main_script_unhandled[OF assms(2) _ _ e]) simp_all
  show "snd (run_body env as b) = Complete_failed msg"
    unfolding run_body_after_setup[OF assms(1)] Let_def m by (simp add: run_catch_def)
  show "outbox (run env as b) =
      outbox b @ concat (map emission_msgs (emitted env)) @ [W_complete (Complete_failed msg)]"
    unfolding run_def run_body_after_setup[OF assms(1)] Let_def m by (simp add: run_catch_def)
qed

lemma run_posts_complete_last:
  "outbox (run env as b) = outbox (fst (run_body env as b)) @ [W_complete (snd (run_body env as b))]"
  by (simp add: run_def split_beta)

section \<open>The exit code of a run\<close>

text \<open>
  C4 (as amended). When the interception was installed and the script was imported, the
  run ends with a \<open>complete\<close> event that follows the way \<open>main\<close> ended. A return gives
  success with exit code 0. \<open>SystemExit\<close> gives success with the code it carries, and 0
  when it carries \<open>None\<close> (so a graceful exit with code 2 gives exit code 2).
  \<open>EOFError\<close> gives exit code 1. \<open>KeyboardInterrupt\<close> gives exit code 130, after the line
  \<open>Cancelled\<close>. Any other exception that is an instance of \<open>Exception\<close> gives exit code
  1, after the line \<open>Error: \<close> with its message and the traceback. An exception that no
  \<open>except\<close> clause takes (one outside \<open>Exception\<close>) is not given an exit code: the run
  reports failure with the error's message. In every case the \<open>complete\<close> event is the
  last message of the run.
\<close>

theorem C4_exit_codes:
  "(setup_fault env = None \<and> import_fault env = None \<and> ending env = None \<longrightarrow>
      snd (run_body env as b) = Complete_ok (PyInt 0)) \<and>
   (setup_fault env = None \<and> import_fault env = None \<and> ending env = Some (SystemExit code) \<longrightarrow>
      snd (run_body env as b) = Complete_ok (if code = PyNone then PyInt 0 else code)) \<and>
   (setup_fault env = None \<and> import_fault env = None \<and> ending env = Some EOFError \<longrightarrow>
      snd (run_body env as b) = Complete_ok (PyInt 1)) \<and>
   (setup_fault env = None \<and> import_fault env = None \<and> ending env = Some KeyboardInterrupt \<longrightarrow>
      snd (run_body env as b) = Complete_ok (PyInt 130) \<and>
      outbox (run env as b) =
        outbox b @ concat (map emission_msgs (emitted env)) @
        [W_output (js ''Cancelled'' @ [LF]), W_complete (Complete_ok (PyInt 130))]) \<and>
   (setup_fault env = None \<and> import_fault env = None \<and>
    ending env = Some (OtherException msg tb) \<longrightarrow>
      snd (run_body env as b) = Complete_ok (PyInt 1) \<and>
      outbox (run env as b) =
        outbox b @ concat (map emission_msgs (emitted env)) @
        W_output (js ''Error: '' @ msg @ [LF]) # map W_output tb @
        [W_complete (Complete_ok (PyInt 1))]) \<and>
   (setup_fault env = None \<and> import_fault env = None \<and>
    ending env = Some (OtherBaseException msg) \<longrightarrow>
      snd (run_body env as b) = Complete_failed msg \<and>
      outbox (run env as b) =
        outbox b @ concat (map emission_msgs (emitted env)) @ [W_complete (Complete_failed msg)]) \<and>
   last (outbox (run env as b)) = W_complete (snd (run_body env as b))"
proof (intro conjI impI)
  assume a: "setup_fault env = None \<and> import_fault env = None \<and> ending env = None"
  show "snd (run_body env as b) = Complete_ok (PyInt 0)"
    by (rule run_result_handled(1)[where houts = "[]"]) (simp_all add: a)
next
  assume a: "setup_fault env = None \<and> import_fault env = None \<and> ending env = Some (SystemExit code)"
  show "snd (run_body env as b) = Complete_ok (if code = PyNone then PyInt 0 else code)"
    by (rule run_result_handled(1)[where houts = "[]"]) (simp_all add: a)
next
  assume a: "setup_fault env = None \<and> import_fault env = None \<and> ending env = Some EOFError"
  show "snd (run_body env as b) = Complete_ok (PyInt 1)"
    by (rule run_result_handled(1)[where houts = "[]"]) (simp_all add: a)
next
  assume a: "setup_fault env = None \<and> import_fault env = None \<and> ending env = Some KeyboardInterrupt"
  show "snd (run_body env as b) = Complete_ok (PyInt 130)"
    by (rule run_result_handled(1)[where houts = "[W_output (js ''Cancelled'' @ [LF])]"])
       (simp_all add: a py_print_def)
  have "outbox (run env as b) =
        outbox b @ concat (map emission_msgs (emitted env)) @
        [W_output (js ''Cancelled'' @ [LF])] @ [W_complete (Complete_ok (PyInt 130))]"
    by (rule run_result_handled(2)) (simp_all add: a py_print_def)
  then show "outbox (run env as b) =
        outbox b @ concat (map emission_msgs (emitted env)) @
        [W_output (js ''Cancelled'' @ [LF]), W_complete (Complete_ok (PyInt 130))]"
    by simp
next
  assume a: "setup_fault env = None \<and> import_fault env = None \<and>
    ending env = Some (OtherException msg tb)"
  show "snd (run_body env as b) = Complete_ok (PyInt 1)"
    by (rule run_result_handled(1)[where
          houts = "W_output (js ''Error: '' @ msg @ [LF]) # map W_output tb"])
       (simp_all add: a py_print_def stderr_patched)
  have "outbox (run env as b) =
        outbox b @ concat (map emission_msgs (emitted env)) @
        (W_output (js ''Error: '' @ msg @ [LF]) # map W_output tb) @
        [W_complete (Complete_ok (PyInt 1))]"
    by (rule run_result_handled(2)) (simp_all add: a py_print_def stderr_patched)
  then show "outbox (run env as b) =
        outbox b @ concat (map emission_msgs (emitted env)) @
        W_output (js ''Error: '' @ msg @ [LF]) # map W_output tb @
        [W_complete (Complete_ok (PyInt 1))]"
    by simp
next
  assume a: "setup_fault env = None \<and> import_fault env = None \<and>
    ending env = Some (OtherBaseException msg)"
  show "snd (run_body env as b) = Complete_failed msg"
    by (rule run_result_unhandled(1)) (simp_all add: a)
  show "outbox (run env as b) =
        outbox b @ concat (map emission_msgs (emitted env)) @ [W_complete (Complete_failed msg)]"
    by (rule run_result_unhandled(2)) (simp_all add: a)
next
  show "last (outbox (run env as b)) = W_complete (snd (run_body env as b))"
    by (simp add: run_posts_complete_last)
qed

theorem C4_exit_codes_witness:
  "snd (run_body (env_ending None) [] runtime_init) = Complete_ok (PyInt 0) \<and>
   snd (run_body (env_ending (Some (SystemExit (PyInt 2)))) [] runtime_init) = Complete_ok (PyInt 2) \<and>
   snd (run_body (env_ending (Some (SystemExit PyNone))) [] runtime_init) = Complete_ok (PyInt 0) \<and>
   snd (run_body (env_ending (Some EOFError)) [] runtime_init) = Complete_ok (PyInt 1) \<and>
   outbox (run (env_ending (Some KeyboardInterrupt)) [] runtime_init) =
     [W_output (js ''Cancelled'' @ [LF]), W_complete (Complete_ok (PyInt 130))] \<and>
   outbox (run (env_ending (Some (OtherException (js ''bad'') []))) [] runtime_init) =
     [W_output (js ''Error: bad'' @ [LF]), W_complete (Complete_ok (PyInt 1))] \<and>
   outbox (run (env_ending (Some (OtherBaseException (js ''boom'')))) [] runtime_init) =
     [W_complete (Complete_failed (js ''boom''))]"
proof -
  have f: "setup_fault (env_ending e) = None \<and> import_fault (env_ending e) = None \<and>
      ending (env_ending e) = e \<and> emitted (env_ending e) = []" for e
    by (simp add: env_ending_def)
  have o: "outbox runtime_init = []" by (simp add: runtime_init_def)
  have j: "js ''Error: '' @ js ''bad'' @ [LF] = js ''Error: bad'' @ [LF]" by (simp add: js_def)
    have 1: "snd (run_body (env_ending None) [] runtime_init) = Complete_ok (PyInt 0)"
    using C4_exit_codes[where b = runtime_init and as = "[]" and env = "env_ending None" and code = "PyNone" and msg = "[]" and tb = "[]"] f by blast
  have 2: "snd (run_body (env_ending (Some (SystemExit (PyInt 2)))) [] runtime_init) =
      Complete_ok (if PyInt 2 = PyNone then PyInt 0 else PyInt 2)"
    using C4_exit_codes[where b = runtime_init and as = "[]" and env = "env_ending (Some (SystemExit (PyInt 2)))" and code = "PyInt 2" and msg = "[]" and tb = "[]"] f by blast
  have 3: "snd (run_body (env_ending (Some (SystemExit PyNone))) [] runtime_init) =
      Complete_ok (if PyNone = PyNone then PyInt 0 else PyNone)"
    using C4_exit_codes[where b = runtime_init and as = "[]" and env = "env_ending (Some (SystemExit PyNone))" and code = "PyNone" and msg = "[]" and tb = "[]"] f by blast
  have 4: "snd (run_body (env_ending (Some EOFError)) [] runtime_init) = Complete_ok (PyInt 1)"
    using C4_exit_codes[where b = runtime_init and as = "[]" and env = "env_ending (Some EOFError)" and code = "PyNone" and msg = "[]" and tb = "[]"] f by blast
  have 5: "outbox (run (env_ending (Some KeyboardInterrupt)) [] runtime_init) =
        outbox runtime_init @ concat (map emission_msgs (emitted (env_ending (Some KeyboardInterrupt)))) @
        [W_output (js ''Cancelled'' @ [LF]), W_complete (Complete_ok (PyInt 130))]"
    using C4_exit_codes[where b = runtime_init and as = "[]" and env = "env_ending (Some KeyboardInterrupt)" and code = "PyNone" and msg = "[]" and tb = "[]"] f by blast
  have 6: "outbox (run (env_ending (Some (OtherException (js ''bad'') []))) [] runtime_init) =
        outbox runtime_init @
        concat (map emission_msgs (emitted (env_ending (Some (OtherException (js ''bad'') []))))) @
        W_output (js ''Error: '' @ js ''bad'' @ [LF]) # map W_output [] @
        [W_complete (Complete_ok (PyInt 1))]"
    using C4_exit_codes[where b = runtime_init and as = "[]" and env = "env_ending (Some (OtherException (js ''bad'') []))" and code = "PyNone" and msg = "js ''bad''" and tb = "[]"] f
    by blast
  have 7: "outbox (run (env_ending (Some (OtherBaseException (js ''boom'')))) [] runtime_init) =
        outbox runtime_init @
        concat (map emission_msgs (emitted (env_ending (Some (OtherBaseException (js ''boom'')))))) @
        [W_complete (Complete_failed (js ''boom''))]"
    using C4_exit_codes[where b = runtime_init and as = "[]" and env = "env_ending (Some (OtherBaseException (js ''boom'')))" and code = "PyNone" and msg = "js ''boom''" and tb = "[]"] f
    by blast
  show ?thesis
    using 1 2 3 4 5 6 7 by (simp add: f o j)
qed

text \<open>
  The claim as it was stated gives exit code 1 to every fault that is none of the three
  named ones. An exception outside \<open>Exception\<close> passes all four \<open>except\<close> clauses: the
  Python call rejects, and the \<open>catch\<close> block reports \<open>success: false\<close> with the error's
  message and no exit code.
\<close>

theorem C4_exit_codes_counterexample:
  "snd (run_body (env_ending (Some (OtherBaseException (js ''boom'')))) [] runtime_init) =
     Complete_failed (js ''boom'') \<and>
   snd (run_body (env_ending (Some (OtherBaseException (js ''boom'')))) [] runtime_init) \<noteq>
     Complete_ok (PyInt 1) \<and>
   last (outbox (run (env_ending (Some (OtherBaseException (js ''boom'')))) [] runtime_init)) =
     W_complete (Complete_failed (js ''boom''))"
proof -
  have e: "snd (run_body (env_ending (Some (OtherBaseException (js ''boom'')))) [] runtime_init) =
     Complete_failed (js ''boom'')"
    by (rule run_result_unhandled(1)) (simp_all add: env_ending_def)
  show ?thesis using e by (simp add: run_posts_complete_last)
qed

section \<open>A run leaves no interception behind\<close>

lemma clean_outbox: "clean (b\<lparr>outbox := x\<rparr>) = clean b"
  by (simp add: clean_def)

lemma prim_not_Patched: "x \<noteq> Patched \<longleftrightarrow> x = Original"
  by (cases x) simp_all

lemma catch_after_setup_prefix:
  assumes "clean b"
  shows "clean (fst (run_catch msg
            (exec_stmts (take k setup_stmts) ((pyodide b)\<lparr>js_module := True\<rparr>)) b'))"
proof -
  consider "k = 0" | "k = 1" | "k = 2" | "k = 3" | "k = 4" | "k = 5" | "k = 6" | "k = 7"
    | "8 \<le> k" by linarith
  then show ?thesis
  proof cases
    case 9
    then have "take k setup_stmts = setup_stmts" by (simp add: setup_stmts_def)
    then show ?thesis using assms
      by (simp add: setup_stmts_def run_catch_def restore_stmts_def clean_def)
  qed (use assms in \<open>auto simp: setup_stmts_def run_catch_def restore_stmts_def clean_def Let_def
        prim_not_Patched split: option.splits\<close>)
qed

lemma run_body_clean:
  assumes "clean b"
  shows "clean (fst (run_body env as b))"
proof (cases "setup_fault env")
  case (Some f)
  obtain k msg where f: "f = (k, msg)" by (cases f)
  show ?thesis
    using catch_after_setup_prefix[OF assms, of msg k "b\<lparr>activeStdinHandler := True\<rparr>"] Some f
    by (simp add: run_body_def setup_script_def Let_def)
next
  case None
  let ?p2 = "(pyodide b)\<lparr>js_module := True,
                 saved_print := Some (builtins_print (pyodide b)),
                 saved_input := Some (builtins_input (pyodide b)),
                 saved_stdout := Some (sys_stdout (pyodide b)),
                 saved_stderr := Some (sys_stderr (pyodide b)),
                 builtins_print := Patched, builtins_input := Patched,
                 sys_stdout := Patched, sys_stderr := Patched\<rparr>"
  have r: "restore_stmts ?p2 =
     (?p2\<lparr>builtins_print := builtins_print (pyodide b), builtins_input := builtins_input (pyodide b),
         sys_stdout := sys_stdout (pyodide b), sys_stderr := sys_stderr (pyodide b)\<rparr>, True)"
    by (rule restore_stmts_saved) simp_all
  show ?thesis
  proof (cases "import_fault env")
    case (Some msg)
    then have m: "main_script env ?p2 = (?p2, [], Inl msg)" by (simp add: main_script_def)
    show ?thesis
      unfolding run_body_after_setup[OF None] Let_def m prod.case sum.case run_catch_def r
      using assms by (simp add: clean_def)
  next
    case no_import: None
    obtain houts res where e: "exit_code_of ?p2 (ending env) = (houts, res)"
      by (cases "exit_code_of ?p2 (ending env)")
    show ?thesis
    proof (cases res)
      case (Inl msg)
      have m: "main_script env ?p2 =
          (?p2, concat (map emission_msgs (emitted env)) @ houts, Inl msg)"
        by (rule main_script_unhandled[OF no_import]) (simp_all add: e Inl)
      show ?thesis
        unfolding run_body_after_setup[OF None] Let_def m prod.case sum.case run_catch_def r
        using assms by (simp add: clean_def)
    next
      case (Inr code)
      have m: "main_script env ?p2 =
        (?p2\<lparr>builtins_print := builtins_print (pyodide b), builtins_input := builtins_input (pyodide b),
         sys_stdout := sys_stdout (pyodide b), sys_stderr := sys_stderr (pyodide b)\<rparr>,
         concat (map emission_msgs (emitted env)) @ houts, Inr code)"
        by (rule main_script_handled[OF no_import]) (simp_all add: e Inr)
      show ?thesis
        unfolding run_body_after_setup[OF None] Let_def m using assms
        by (simp add: clean_def)
    qed
  qed
qed

lemma run_clean: "clean b \<Longrightarrow> clean (run env as b)"
  using run_body_clean[of b env as] by (simp add: run_def split_beta clean_outbox)

lemma run_all_clean: "clean b \<Longrightarrow> clean (run_all rs b)"
  by (induction rs arbitrary: b) (auto simp: run_clean)

text \<open>
  C5. Started with no interception in place, a run ends with none in place, on every
  path: when \<open>main\<close> returns or raises an exception the script's \<open>except\<close> clauses take,
  when the second Python call rejects (an exception no clause takes, or a failing
  import), and when the first Python call, which installs the interception, raises after
  any number of its statements. At the moment the \<open>complete\<close> event is posted,
  \<open>builtins.print\<close>, \<open>builtins.input\<close>, \<open>sys.stdout\<close> and \<open>sys.stderr\<close> hold the
  interpreter's own objects again, the module \<open>output_handler\<close> is unregistered and no
  input handler is active; the \<open>complete\<close> event is the last thing the run does, so the
  state after the run is that state. The same holds after any sequence of runs. A run
  without faults that follows any run, faulting or not, forwards exactly what its script
  prints, reports success with exit code 0, and again leaves no interception behind.
\<close>

theorem C5_cleanup:
  "(clean b \<longrightarrow>
      builtins_print (pyodide (fst (run_body env as b))) = Original \<and>
      builtins_input (pyodide (fst (run_body env as b))) = Original \<and>
      sys_stdout (pyodide (fst (run_body env as b))) = Original \<and>
      sys_stderr (pyodide (fst (run_body env as b))) = Original \<and>
      \<not> js_module (pyodide (fst (run_body env as b))) \<and>
      \<not> activeStdinHandler (fst (run_body env as b)) \<and>
      clean (fst (run_body env as b)) \<and>
      clean (run env as b) \<and>
      clean (run_all rs b)) \<and>
   outbox (run env as b) =
     outbox (fst (run_body env as b)) @ [W_complete (snd (run_body env as b))] \<and>
   pyodide (run env as b) = pyodide (fst (run_body env as b)) \<and>
   (clean b \<and> setup_fault env' = None \<and> import_fault env' = None \<and> ending env' = None \<longrightarrow>
      outbox (run env' as' (run env as b)) =
        outbox (run env as b) @ concat (map emission_msgs (emitted env')) @
        [W_complete (Complete_ok (PyInt 0))] \<and>
      clean (run env' as' (run env as b)))"
proof (intro conjI impI)
  assume c: "clean b"
  have k: "clean (fst (run_body env as b))" using c by (rule run_body_clean)
  show "builtins_print (pyodide (fst (run_body env as b))) = Original"
    and "builtins_input (pyodide (fst (run_body env as b))) = Original"
    and "sys_stdout (pyodide (fst (run_body env as b))) = Original"
    and "sys_stderr (pyodide (fst (run_body env as b))) = Original"
    and "\<not> js_module (pyodide (fst (run_body env as b)))"
    and "\<not> activeStdinHandler (fst (run_body env as b))"
    using k by (simp_all add: clean_def)
  show "clean (fst (run_body env as b))" by (rule k)
  show "clean (run env as b)" using c by (rule run_clean)
  show "clean (run_all rs b)" using c by (rule run_all_clean)
next
  show "outbox (run env as b) =
     outbox (fst (run_body env as b)) @ [W_complete (snd (run_body env as b))]"
    by (rule run_posts_complete_last)
  show "pyodide (run env as b) = pyodide (fst (run_body env as b))"
    by (simp add: run_def split_beta)
next
  assume a: "clean b \<and> setup_fault env' = None \<and> import_fault env' = None \<and> ending env' = None"
  have "outbox (run env' as' (run env as b)) =
        outbox (run env as b) @ concat (map emission_msgs (emitted env')) @ [] @
        [W_complete (Complete_ok (PyInt 0))]"
    by (rule run_result_handled(2)) (simp_all add: a)
  then show "outbox (run env' as' (run env as b)) =
        outbox (run env as b) @ concat (map emission_msgs (emitted env')) @
        [W_complete (Complete_ok (PyInt 0))]"
    by simp
  show "clean (run env' as' (run env as b))"
    using a by (simp add: run_clean)
qed

theorem C5_cleanup_witness:
  "clean runtime_init \<and>
   clean (fst (run_body env_setup_fails [] runtime_init)) \<and>
   builtins_print (pyodide (fst (run_body env_setup_fails [] runtime_init))) = Original \<and>
   outbox (run env_setup_fails [] runtime_init) = [W_complete (Complete_failed (js ''boom''))] \<and>
   outbox (run env_prints [js ''Dune''] (run env_setup_fails [] runtime_init)) =
     [W_complete (Complete_failed (js ''boom'')), W_output (js ''Dune''),
      W_complete (Complete_ok (PyInt 0))] \<and>
   clean (run env_prints [js ''Dune''] (run env_setup_fails [] runtime_init))"
proof -
  have c: "clean runtime_init" by (simp add: clean_def runtime_init_def)
  have p: "setup_fault env_prints = None \<and> import_fault env_prints = None \<and>
      ending env_prints = None"
    by (simp add: env_prints_def)
  have e: "emitted env_prints = [Print (js ''Dune'')]" by (simp add: env_prints_def)
  have f: "outbox (run env_setup_fails [] runtime_init) = [W_complete (Complete_failed (js ''boom''))]"
    by (simp add: run_def run_body_def env_setup_fails_def setup_script_def run_catch_def
          runtime_init_def Let_def)
  note t = C5_cleanup[where b = runtime_init and env = env_setup_fails and as = "[]"
      and rs = "[]" and env' = env_prints and as' = "[js ''Dune'']"]
  have 1: "clean (fst (run_body env_setup_fails [] runtime_init))"
    and 2: "builtins_print (pyodide (fst (run_body env_setup_fails [] runtime_init))) = Original"
    using t c by blast+
  have 3: "outbox (run env_prints [js ''Dune''] (run env_setup_fails [] runtime_init)) =
        outbox (run env_setup_fails [] runtime_init) @
        concat (map emission_msgs (emitted env_prints)) @ [W_complete (Complete_ok (PyInt 0))]"
    and 4: "clean (run env_prints [js ''Dune''] (run env_setup_fails [] runtime_init))"
    using t c p by blast+
  show ?thesis using c 1 2 3 4 f e by (simp add: emission_msgs_def)
qed

end
